theory Spec2Isabelle
  imports Main "HOL-Library.Word"
begin

section \<open>ecjsonrpc: the red/black message transform of \<^verbatim>\<open>index.js\<close>\<close>

text \<open>
  The module is glue code around three external libraries (Node's \<^verbatim>\<open>crypto\<close> and
  \<^verbatim>\<open>Buffer\<close>, \<^verbatim>\<open>eciesjs\<close>, \<^verbatim>\<open>elliptic\<close>) and the \<^verbatim>\<open>JSON\<close> built-in.
  The embedding keeps the module's own control flow and data flow as it is written and
  takes the cryptographic primitives as parameters (a record of functions), so that every
  theorem holds for any implementation of them. What the JavaScript runtime itself does
  to the module's data (property reads and writes, hex coding of buffers, the copying
  done by \<^verbatim>\<open>JSON.parse(JSON.stringify(x))\<close>) is modelled concretely.
\<close>

subsection \<open>Buffers and their hex coding\<close>

type_synonym byte = "8 word"
type_synonym bytes = "byte list"

text \<open>\<^verbatim>\<open>buf.toString('hex')\<close>: two lower-case hex digits for each byte.\<close>

definition hexdigit :: "nat \<Rightarrow> char" where
  "hexdigit n = ''0123456789abcdef'' ! n"

fun toString_hex :: "bytes \<Rightarrow> string" where
  "toString_hex [] = []"
| "toString_hex (b # bs) =
     hexdigit (unat b div 16) # hexdigit (unat b mod 16) # toString_hex bs"

text \<open>
  Node's \<^verbatim>\<open>unhex\<close>: the value of a hex digit of either case, nothing for any other
  character.
\<close>

definition unhex :: "char \<Rightarrow> nat option" where
  "unhex c =
     (let n = (of_char c :: nat) in
      if 48 \<le> n \<and> n \<le> 57 then Some (n - 48)
      else if 65 \<le> n \<and> n \<le> 70 then Some (n - 55)
      else if 97 \<le> n \<and> n \<le> 102 then Some (n - 87)
      else None)"

text \<open>
  \<^verbatim>\<open>Buffer.from(s, 'hex')\<close> for a string \<open>s\<close>: the characters are read two at a
  time; decoding stops, without an error, at the first pair that is not two hex digits,
  and a trailing single character is dropped.
\<close>

fun from_hex :: "string \<Rightarrow> bytes" where
  "from_hex (a # b # cs) =
     (case unhex a of
        None \<Rightarrow> []
      | Some x \<Rightarrow>
          (case unhex b of
             None \<Rightarrow> []
           | Some y \<Rightarrow> word_of_nat (16 * x + y) # from_hex cs))"
| "from_hex _ = []"

subsection \<open>JavaScript values and the object heap\<close>

text \<open>
  Objects and arrays live in a heap and are referred to by address, so that sharing
  between a template and a message built from it is visible. Numbers are restricted to
  integers, and strings to those of 8-bit characters (a string with a character beyond
  \<^verbatim>\<open>U+00FF\<close> is not modelled). An array carries its elements and, as every JavaScript object does, named
  properties. Property names that are array indices or \<^verbatim>\<open>length\<close> are not modelled:
  the module never uses one.
\<close>

datatype val =
    VUndefined
  | VNull
  | VBool bool
  | VNum int
  | VStr string
  | VRef nat

datatype obj =
    Obj "(string \<times> val) list"
  | Arr "val list" "(string \<times> val) list"

type_synonym heap = "obj list"

datatype error =
    TypeError                     \<comment> \<open>the runtime: a property of \<^verbatim>\<open>null\<close> or \<^verbatim>\<open>undefined\<close>\<close>
                                  \<comment> \<open>(in the module, or in elliptic's encoding of a point)\<close>
  | MalformedEnvelope             \<comment> \<open>\<^verbatim>\<open>Buffer.from(v, 'hex')\<close> throws\<close>
  | KeyFormatError                \<comment> \<open>\<^verbatim>\<open>ec.keyFromPublic\<close> or \<^verbatim>\<open>ec.keyFromPrivate\<close> throws\<close>
  | VerifyError                   \<comment> \<open>\<^verbatim>\<open>pubkey.verify\<close> throws\<close>
  | SignatureVerificationFailure  \<comment> \<open>\<^verbatim>\<open>throw 'Sender verification failure'\<close>\<close>
  | EncryptionFailure             \<comment> \<open>\<^verbatim>\<open>ecies.encrypt\<close> throws\<close>
  | DecryptionFailure             \<comment> \<open>\<^verbatim>\<open>ecies.decrypt\<close> throws\<close>
  | SerializationError            \<comment> \<open>\<^verbatim>\<open>JSON.stringify\<close> throws or yields \<^verbatim>\<open>undefined\<close>\<close>
  | DeserializationError          \<comment> \<open>\<^verbatim>\<open>JSON.parse\<close> throws\<close>

text \<open>\<^verbatim>\<open>v != null\<close> is false for \<^verbatim>\<open>null\<close> and for \<^verbatim>\<open>undefined\<close>.\<close>

fun nullish :: "val \<Rightarrow> bool" where
  "nullish VUndefined = True"
| "nullish VNull = True"
| "nullish _ = False"

fun lookup :: "(string \<times> val) list \<Rightarrow> string \<Rightarrow> val" where
  "lookup [] k = VUndefined"
| "lookup ((k', v) # fs) k = (if k' = k then v else lookup fs k)"

text \<open>
  \<^verbatim>\<open>v.k\<close>: a \<^verbatim>\<open>TypeError\<close> on \<^verbatim>\<open>null\<close> and \<^verbatim>\<open>undefined\<close>, \<^verbatim>\<open>undefined\<close> on
  the other primitive values and for an absent property.
\<close>

fun get_prop :: "heap \<Rightarrow> val \<Rightarrow> string \<Rightarrow> error + val" where
  "get_prop h VUndefined k = Inl TypeError"
| "get_prop h VNull k = Inl TypeError"
| "get_prop h (VRef a) k =
     (if a < length h
      then (case h ! a of Obj fs \<Rightarrow> Inr (lookup fs k) | Arr xs fs \<Rightarrow> Inr (lookup fs k))
      else Inr VUndefined)"
| "get_prop h _ k = Inr VUndefined"

subsection \<open>The structural validators\<close>

text \<open>
  \<^verbatim>\<open>
  exports.isBlackMsg = function( obj ) {
    return    obj != null
           && obj.msghex != null
           && obj.sighex != null
           && obj.spkhex != null
  }
  \<close>
  \<^verbatim>\<open>&&\<close> evaluates its right operand only when the left one is true.
\<close>

definition and_also :: "error + bool \<Rightarrow> error + bool \<Rightarrow> error + bool" where
  "and_also a b = (case a of Inl e \<Rightarrow> Inl e | Inr x \<Rightarrow> if x then b else Inr False)"

definition or_else :: "error + bool \<Rightarrow> error + bool \<Rightarrow> error + bool" where
  "or_else a b = (case a of Inl e \<Rightarrow> Inl e | Inr x \<Rightarrow> if x then Inr True else b)"

definition prop_not_null :: "heap \<Rightarrow> val \<Rightarrow> string \<Rightarrow> error + bool" where
  "prop_not_null h v k =
     (case get_prop h v k of Inl e \<Rightarrow> Inl e | Inr x \<Rightarrow> Inr (\<not> nullish x))"

definition isBlackMsg :: "heap \<Rightarrow> val \<Rightarrow> error + bool" where
  "isBlackMsg h obj =
     and_also (Inr (\<not> nullish obj))
       (and_also (prop_not_null h obj ''msghex'')
          (and_also (prop_not_null h obj ''sighex'')
             (prop_not_null h obj ''spkhex'')))"

text \<open>
  \<^verbatim>\<open>
  exports.isJSONRPC = function( obj ) {
    return (obj != null &&
            obj.jsonrpc != null &&
            obj.jsonrpc === "2.0" &&
            obj.id != null &&
            (obj.method != null || obj.error != null || obj.result != null) )
  }
  \<close>
\<close>

definition prop_is_str :: "heap \<Rightarrow> val \<Rightarrow> string \<Rightarrow> string \<Rightarrow> error + bool" where
  "prop_is_str h v k s =
     (case get_prop h v k of Inl e \<Rightarrow> Inl e | Inr x \<Rightarrow> Inr (x = VStr s))"

definition isJSONRPC :: "heap \<Rightarrow> val \<Rightarrow> error + bool" where
  "isJSONRPC h obj =
     and_also (Inr (\<not> nullish obj))
       (and_also (prop_not_null h obj ''jsonrpc'')
          (and_also (prop_is_str h obj ''jsonrpc'' ''2.0'')
             (and_also (prop_not_null h obj ''id'')
                (or_else (prop_not_null h obj ''method'')
                   (or_else (prop_not_null h obj ''error'')
                      (prop_not_null h obj ''result''))))))"

text \<open>
  The validators as the specification words them: the field of a value that is not
  \<^verbatim>\<open>null\<close> or \<^verbatim>\<open>undefined\<close>, read without any error case.
\<close>

definition field :: "heap \<Rightarrow> val \<Rightarrow> string \<Rightarrow> val" where
  "field h v k =
     (case v of
        VRef a \<Rightarrow>
          (if a < length h
           then (case h ! a of Obj fs \<Rightarrow> lookup fs k | Arr xs fs \<Rightarrow> lookup fs k)
           else VUndefined)
      | _ \<Rightarrow> VUndefined)"

definition isBlackMsg_spec :: "heap \<Rightarrow> val \<Rightarrow> bool" where
  "isBlackMsg_spec h obj \<longleftrightarrow>
     \<not> nullish obj \<and> \<not> nullish (field h obj ''msghex'') \<and>
     \<not> nullish (field h obj ''sighex'') \<and> \<not> nullish (field h obj ''spkhex'')"

definition isJSONRPC_spec :: "heap \<Rightarrow> val \<Rightarrow> bool" where
  "isJSONRPC_spec h obj \<longleftrightarrow>
     \<not> nullish obj \<and> field h obj ''jsonrpc'' = VStr ''2.0'' \<and>
     \<not> nullish (field h obj ''id'') \<and>
     (\<not> nullish (field h obj ''method'') \<or> \<not> nullish (field h obj ''error'') \<or>
      \<not> nullish (field h obj ''result''))"

subsection \<open>Property writes\<close>

text \<open>
  \<^verbatim>\<open>o.k = v\<close> keeps the position of a property that exists and appends a new one.
  The module is not in strict mode, so the assignment is silently ignored on a primitive
  value; on \<^verbatim>\<open>null\<close> and \<^verbatim>\<open>undefined\<close> it throws.
\<close>

fun set_field :: "(string \<times> val) list \<Rightarrow> string \<Rightarrow> val \<Rightarrow> (string \<times> val) list" where
  "set_field [] k v = [(k, v)]"
| "set_field ((k', x) # fs) k v =
     (if k' = k then (k, v) # fs else (k', x) # set_field fs k v)"

fun set_prop :: "heap \<Rightarrow> val \<Rightarrow> string \<Rightarrow> val \<Rightarrow> error + heap" where
  "set_prop h VUndefined k v = Inl TypeError"
| "set_prop h VNull k v = Inl TypeError"
| "set_prop h (VRef a) k v =
     (if a < length h
      then Inr (h[a := (case h ! a of
                          Obj fs \<Rightarrow> Obj (set_field fs k v)
                        | Arr xs fs \<Rightarrow> Arr xs (set_field fs k v))])
      else Inr h)"
| "set_prop h _ k v = Inr h"

definition bind :: "error + 'a \<Rightarrow> ('a \<Rightarrow> error + 'b) \<Rightarrow> error + 'b" where
  "bind r f = (case r of Inl e \<Rightarrow> Inl e | Inr x \<Rightarrow> f x)"

subsection \<open>\<^verbatim>\<open>JSON.stringify\<close> and \<^verbatim>\<open>JSON.parse\<close>\<close>

text \<open>
  A JSON text is represented by its syntax tree; how a tree is written as characters and
  bytes is left to the library parameters below. \<^verbatim>\<open>JSON.stringify\<close> walks the heap:
  it yields \<^verbatim>\<open>undefined\<close> (here \<open>None\<close>) for \<^verbatim>\<open>undefined\<close>, leaves out a
  property whose value is \<^verbatim>\<open>undefined\<close>, writes \<^verbatim>\<open>null\<close> for such an array
  element, ignores the named properties of an array, and throws when it meets an object
  that is already on its stack (a cycle). Properties are kept in the order in which they
  were added. \<^verbatim>\<open>toJSON\<close> methods, functions and the reordering of property names
  that are array indices are not modelled.
\<close>

datatype json =
    JNull
  | JBool bool
  | JNum int
  | JStr string
  | JArr "json list"
  | JObj "(string \<times> json) list"

definition unseen :: "nat list \<Rightarrow> heap \<Rightarrow> nat" where
  "unseen seen h = card ({..<length h} - set seen)"

lemma unseen_less:
  assumes "a \<notin> set seen" and "a < length h"
  shows "unseen (a # seen) h < unseen seen h"
proof -
  have "{..<length h} - set (a # seen) = ({..<length h} - set seen) - {a}"
    by auto
  moreover have "a \<in> {..<length h} - set seen"
    using assms by simp
  ultimately show ?thesis
    unfolding unseen_def by (metis card_Diff1_less finite_Diff finite_lessThan)
qed

function stringify :: "nat list \<Rightarrow> heap \<Rightarrow> val \<Rightarrow> error + json option"
  and stringify_props ::
    "nat list \<Rightarrow> heap \<Rightarrow> (string \<times> val) list \<Rightarrow> error + (string \<times> json) list"
  and stringify_elems :: "nat list \<Rightarrow> heap \<Rightarrow> val list \<Rightarrow> error + json list"
where
  "stringify seen h VUndefined = Inr None"
| "stringify seen h VNull = Inr (Some JNull)"
| "stringify seen h (VBool b) = Inr (Some (JBool b))"
| "stringify seen h (VNum n) = Inr (Some (JNum n))"
| "stringify seen h (VStr s) = Inr (Some (JStr s))"
| "stringify seen h (VRef a) =
     (if a \<in> set seen \<or> length h \<le> a then Inl SerializationError
      else (case h ! a of
              Obj fs \<Rightarrow>
                (case stringify_props (a # seen) h fs of
                   Inl e \<Rightarrow> Inl e
                 | Inr jfs \<Rightarrow> Inr (Some (JObj jfs)))
            | Arr xs fs \<Rightarrow>
                (case stringify_elems (a # seen) h xs of
                   Inl e \<Rightarrow> Inl e
                 | Inr js \<Rightarrow> Inr (Some (JArr js)))))"
| "stringify_props seen h [] = Inr []"
| "stringify_props seen h ((k, v) # fs) =
     (case stringify seen h v of
        Inl e \<Rightarrow> Inl e
      | Inr None \<Rightarrow> stringify_props seen h fs
      | Inr (Some j) \<Rightarrow>
          (case stringify_props seen h fs of
             Inl e \<Rightarrow> Inl e
           | Inr jfs \<Rightarrow> Inr ((k, j) # jfs)))"
| "stringify_elems seen h [] = Inr []"
| "stringify_elems seen h (v # vs) =
     (case stringify seen h v of
        Inl e \<Rightarrow> Inl e
      | Inr r \<Rightarrow>
          (case stringify_elems seen h vs of
             Inl e \<Rightarrow> Inl e
           | Inr js \<Rightarrow> Inr ((case r of None \<Rightarrow> JNull | Some j \<Rightarrow> j) # js)))"
  by pat_completeness auto
termination
  by (relation "inv_image (less_than <*lex*> less_than)
        (\<lambda>x. case x of
            Inl (seen, h, v) \<Rightarrow> (unseen seen h, 0)
          | Inr (Inl (seen, h, fs)) \<Rightarrow> (unseen seen h, Suc (length fs))
          | Inr (Inr (seen, h, vs)) \<Rightarrow> (unseen seen h, Suc (length vs)))")
     (auto simp: unseen_less)

text \<open>
  \<^verbatim>\<open>JSON.parse\<close> builds fresh objects: every object and array of the tree is
  allocated at a new address at the end of the heap. A repeated key overwrites the
  earlier value.
\<close>

fun parse :: "json \<Rightarrow> heap \<Rightarrow> val \<times> heap"
  and parse_props ::
    "(string \<times> json) list \<Rightarrow> (string \<times> val) list \<Rightarrow> heap \<Rightarrow> (string \<times> val) list \<times> heap"
  and parse_elems :: "json list \<Rightarrow> heap \<Rightarrow> val list \<times> heap"
where
  "parse JNull h = (VNull, h)"
| "parse (JBool b) h = (VBool b, h)"
| "parse (JNum n) h = (VNum n, h)"
| "parse (JStr s) h = (VStr s, h)"
| "parse (JArr js) h =
     (case parse_elems js h of (vs, h') \<Rightarrow> (VRef (length h'), h' @ [Arr vs []]))"
| "parse (JObj jfs) h =
     (case parse_props jfs [] h of (fs, h') \<Rightarrow> (VRef (length h'), h' @ [Obj fs]))"
| "parse_props [] acc h = (acc, h)"
| "parse_props ((k, j) # jfs) acc h =
     (case parse j h of (v, h') \<Rightarrow> parse_props jfs (set_field acc k v) h')"
| "parse_elems [] h = ([], h)"
| "parse_elems (j # js) h =
     (case parse j h of (v, h') \<Rightarrow>
        (case parse_elems js h' of (vs, h'') \<Rightarrow> (v # vs, h'')))"

text \<open>
  \<^verbatim>\<open>JSON.parse( JSON.stringify(x) )\<close>, the module's way of copying a template.
  \<^verbatim>\<open>JSON.parse(undefined)\<close> throws a \<^verbatim>\<open>SyntaxError\<close>.
\<close>

definition clone :: "heap \<Rightarrow> val \<Rightarrow> error + val \<times> heap" where
  "clone h v =
     (case stringify [] h v of
        Inl e \<Rightarrow> Inl e
      | Inr None \<Rightarrow> Inl DeserializationError
      | Inr (Some j) \<Rightarrow> Inr (parse j h))"

subsection \<open>The module's exported templates\<close>

text \<open>
  \<^verbatim>\<open>
  exports.BLACKMSG = { msghex : "", sighex : "", spkhex : "" }
  exports.REDHELLO = { jsonrpc: "2.0", method: "hello", params: [], id: 0 }
  exports.REQUEST = { jsonrpc: "2.0", method: "", params: [], id: 0 }
  exports.RESPONSE = { jsonrpc: "2.0", result: {}, id: 0 }
  exports.ERRORRESPONSE = { jsonrpc: "2.0", error: { code: 0, message: '' }, id: 0 }
  \<close>
  The heap after the module is loaded: the \<^verbatim>\<open>exports\<close> object at address 0 and the
  five templates with their nested objects behind it. All of them are ordinary mutable
  objects that any caller can reach.
\<close>

definition exports :: val where
  "exports = VRef 0"

definition init_heap :: heap where
  "init_heap =
     [ Obj [(''BLACKMSG'', VRef 1), (''REDHELLO'', VRef 2), (''REQUEST'', VRef 4),
            (''RESPONSE'', VRef 6), (''ERRORRESPONSE'', VRef 8)],
       Obj [(''msghex'', VStr ''''), (''sighex'', VStr ''''), (''spkhex'', VStr '''')],
       Obj [(''jsonrpc'', VStr ''2.0''), (''method'', VStr ''hello''),
            (''params'', VRef 3), (''id'', VNum 0)],
       Arr [] [],
       Obj [(''jsonrpc'', VStr ''2.0''), (''method'', VStr ''''),
            (''params'', VRef 5), (''id'', VNum 0)],
       Arr [] [],
       Obj [(''jsonrpc'', VStr ''2.0''), (''result'', VRef 7), (''id'', VNum 0)],
       Obj [],
       Obj [(''jsonrpc'', VStr ''2.0''), (''error'', VRef 9), (''id'', VNum 0)],
       Obj [(''code'', VNum 0), (''message'', VStr '''')] ]"

text \<open>The module's objects are as they were when it was loaded.\<close>

definition templates_intact :: "heap \<Rightarrow> bool" where
  "templates_intact h \<longleftrightarrow> take 10 h = init_heap"

subsection \<open>The message factories\<close>

text \<open>
  \<^verbatim>\<open>
  exports.makeRedHello = function( sesspubkeyhex ) {
    let result = JSON.parse( JSON.stringify(exports.REDHELLO) )
    result.params = [ sesspubkeyhex ]
    return result
  }
  \<close>
\<close>

definition makeRedHello :: "val \<Rightarrow> heap \<Rightarrow> error + val \<times> heap" where
  "makeRedHello sesspubkeyhex h =
     bind (get_prop h exports ''REDHELLO'') (\<lambda>template.
     bind (clone h template) (\<lambda>(result, h1).
     bind (set_prop (h1 @ [Arr [sesspubkeyhex] []]) result ''params'' (VRef (length h1)))
       (\<lambda>h2. Inr (result, h2))))"

text \<open>
  \<^verbatim>\<open>
  exports.makeErrorObj = function( errcode, errmessage, id ) {
    let result = JSON.parse( JSON.stringify(exports.ERRORRESPONSE) )
    result.error.code = errcode
    result.error.message = errmessage
    result.id = id
    return result
  }
  \<close>
\<close>

definition makeErrorObj :: "val \<Rightarrow> val \<Rightarrow> val \<Rightarrow> heap \<Rightarrow> error + val \<times> heap" where
  "makeErrorObj errcode errmessage id' h =
     bind (get_prop h exports ''ERRORRESPONSE'') (\<lambda>template.
     bind (clone h template) (\<lambda>(result, h1).
     bind (get_prop h1 result ''error'') (\<lambda>e1.
     bind (set_prop h1 e1 ''code'' errcode) (\<lambda>h2.
     bind (get_prop h2 result ''error'') (\<lambda>e2.
     bind (set_prop h2 e2 ''message'' errmessage) (\<lambda>h3.
     bind (set_prop h3 result ''id'' id') (\<lambda>h4.
     Inr (result, h4))))))))"

subsection \<open>The external libraries\<close>

text \<open>
  The functions of \<^verbatim>\<open>node:crypto\<close>, \<^verbatim>\<open>elliptic\<close> and \<^verbatim>\<open>eciesjs\<close> that the module
  calls, and the character coding of JSON texts, as parameters. \<open>'kp\<close> is elliptic's
  \<^verbatim>\<open>KeyPair\<close>, \<open>'sig\<close> its \<^verbatim>\<open>Signature\<close>. \<open>None\<close> stands for a thrown
  exception. \<^verbatim>\<open>ecies.encrypt\<close> draws its ephemeral key from the system's entropy: it
  is given the bytes the entropy source will yield next and tells how many it used.
\<close>

record ('kp, 'sig) lib =
  sha256 :: "bytes \<Rightarrow> bytes"
    \<comment> \<open>\<^verbatim>\<open>crypto.createHash('sha256').update(b).digest()\<close>\<close>
  keyFromPublic :: "string \<Rightarrow> 'kp option"
    \<comment> \<open>\<^verbatim>\<open>ec.keyFromPublic(s, 'hex')\<close> for a string \<open>s\<close>\<close>
  keyFromPublic_other :: "heap \<Rightarrow> val \<Rightarrow> 'kp option"
    \<comment> \<open>\<^verbatim>\<open>ec.keyFromPublic(v, 'hex')\<close> for a value that is not a string\<close>
  keyFromPrivate :: "string \<Rightarrow> 'kp option"
    \<comment> \<open>\<^verbatim>\<open>ec.keyFromPrivate(s, 'hex')\<close>\<close>
  getPublic :: "'kp \<Rightarrow> (nat \<times> nat) option"
    \<comment> \<open>\<^verbatim>\<open>key.getPublic()\<close>: the public point, by its coordinates; \<open>None\<close> is the
        point at infinity, the public point of a private key that is 0 modulo the group order\<close>
  sign :: "'kp \<Rightarrow> bytes \<Rightarrow> 'sig"
    \<comment> \<open>\<^verbatim>\<open>key.sign(hash)\<close>\<close>
  toDER :: "'sig \<Rightarrow> bytes"
    \<comment> \<open>\<^verbatim>\<open>signature.toDER()\<close>\<close>
  verify :: "'kp \<Rightarrow> bytes \<Rightarrow> bytes \<Rightarrow> bool option"
    \<comment> \<open>\<^verbatim>\<open>key.verify(hash, sig)\<close>\<close>
  ecies_encrypt :: "(nat \<Rightarrow> byte) \<Rightarrow> string \<Rightarrow> bytes \<Rightarrow> bytes option \<times> nat"
    \<comment> \<open>\<^verbatim>\<open>ecies.encrypt(pubkeyhex, plaintext)\<close>\<close>
  ecies_decrypt :: "string \<Rightarrow> bytes \<Rightarrow> bytes option"
    \<comment> \<open>\<^verbatim>\<open>ecies.decrypt(privkeyhex, ciphertext)\<close>\<close>
  buffer_from_text :: "json \<Rightarrow> bytes"
    \<comment> \<open>\<^verbatim>\<open>Buffer.from(s)\<close> for a JSON text \<open>s\<close>: its UTF-8 bytes\<close>
  text_from_buffer :: "bytes \<Rightarrow> json option"
    \<comment> \<open>the JSON text that \<^verbatim>\<open>JSON.parse(buf)\<close> reads from a buffer, if it is one\<close>
  buffer_from_object :: "heap \<Rightarrow> nat \<Rightarrow> bytes option"
    \<comment> \<open>\<^verbatim>\<open>Buffer.from(o, 'hex')\<close> for an object or array \<open>o\<close>\<close>

text \<open>
  elliptic's encoding of a curve point, \<^verbatim>\<open>point.encode(enc, compact)\<close>: with
  \<^verbatim>\<open>compact\<close> the byte 2 or 3 (the parity of y) and the 32 bytes of x; without it the
  byte 4 and the 32 bytes of x and of y. \<^verbatim>\<open>key.getPublic(compact, 'hex')\<close> is the
  hex string of that encoding of \<^verbatim>\<open>key.getPublic()\<close>. The point at infinity has no
  coordinates: \<^verbatim>\<open>ec.keyFromPrivate\<close> accepts a key that is 0 modulo the group order,
  and the encoding of its public point throws a \<^verbatim>\<open>TypeError\<close>.
\<close>

definition be32 :: "nat \<Rightarrow> bytes" where
  "be32 n = map (\<lambda>i. word_of_nat (n div 256 ^ (31 - i))) [0..<32]"

definition encode :: "nat \<times> nat \<Rightarrow> bool \<Rightarrow> bytes" where
  "encode P compact =
     (if compact then (if even (snd P) then 2 else 3) # be32 (fst P)
      else 4 # be32 (fst P) @ be32 (snd P))"

subsection \<open>The world a call runs in\<close>

text \<open>
  The object heap, the entropy source (the bytes it will yield, and how many have been
  drawn) and the log of the calls made to the cryptographic libraries, in the order in
  which they were made.
\<close>

datatype call =
    RandomBytes nat
  | Hash bytes
  | KeyFromPublic val
  | KeyFromPrivate string
  | Sign bytes
  | Verify bytes bytes "bool option"
  | Encrypt string bytes
  | Decrypt string bytes

record world =
  mem :: heap
  entropy :: "nat \<Rightarrow> byte"
  drawn :: nat
  calls :: "call list"

type_synonym 'a run = "world \<Rightarrow> (error + 'a) \<times> world"

definition return :: "'a \<Rightarrow> 'a run" where
  "return x w = (Inr x, w)"

definition throw :: "error \<Rightarrow> 'a run" where
  "throw e w = (Inl e, w)"

definition seq :: "'a run \<Rightarrow> ('a \<Rightarrow> 'b run) \<Rightarrow> 'b run" where
  "seq m f w = (case m w of (Inl e, w') \<Rightarrow> (Inl e, w') | (Inr x, w') \<Rightarrow> f x w')"

definition logged :: "call \<Rightarrow> unit run" where
  "logged c w = (Inr (), w\<lparr>calls := calls w @ [c]\<rparr>)"

definition or_throw :: "error \<Rightarrow> 'a option \<Rightarrow> 'a run" where
  "or_throw e r = (case r of None \<Rightarrow> throw e | Some x \<Rightarrow> return x)"

definition read_prop :: "val \<Rightarrow> string \<Rightarrow> val run" where
  "read_prop v k w = (get_prop (mem w) v k, w)"

definition write_prop :: "val \<Rightarrow> string \<Rightarrow> val \<Rightarrow> unit run" where
  "write_prop v k x w =
     (case set_prop (mem w) v k x of
        Inl e \<Rightarrow> (Inl e, w)
      | Inr h \<Rightarrow> (Inr (), w\<lparr>mem := h\<rparr>))"

definition allocate :: "obj \<Rightarrow> val run" where
  "allocate ob w = (Inr (VRef (length (mem w))), w\<lparr>mem := mem w @ [ob]\<rparr>)"

definition JSON_parse :: "json \<Rightarrow> val run" where
  "JSON_parse j w = (case parse j (mem w) of (v, h) \<Rightarrow> (Inr v, w\<lparr>mem := h\<rparr>))"

definition JSON_stringify :: "val \<Rightarrow> json option run" where
  "JSON_stringify v w = (stringify [] (mem w) v, w)"

definition JSON_clone :: "val \<Rightarrow> val run" where
  "JSON_clone v w =
     (case clone (mem w) v of
        Inl e \<Rightarrow> (Inl e, w)
      | Inr (r, h) \<Rightarrow> (Inr r, w\<lparr>mem := h\<rparr>))"

text \<open>\<^verbatim>\<open>crypto.randomBytes(n)\<close>: the next \<open>n\<close> bytes of the entropy source.\<close>

definition randomBytes :: "nat \<Rightarrow> bytes run" where
  "randomBytes n w =
     (Inr (map (\<lambda>i. entropy w (drawn w + i)) [0..<n]),
      w\<lparr>drawn := drawn w + n, calls := calls w @ [RandomBytes n]\<rparr>)"

text \<open>
  \<^verbatim>\<open>Buffer.from(v, 'hex')\<close>: a string is decoded leniently, never with an error;
  \<^verbatim>\<open>undefined\<close>, \<^verbatim>\<open>null\<close>, a boolean and a number are refused with a
  \<^verbatim>\<open>TypeError\<close>; what an object yields is left to the library.
\<close>

definition Buffer_from_hex :: "('kp, 'sig) lib \<Rightarrow> val \<Rightarrow> bytes run" where
  "Buffer_from_hex L v w =
     (case v of
        VStr s \<Rightarrow> (Inr (from_hex s), w)
      | VRef a \<Rightarrow>
          (case buffer_from_object L (mem w) a of
             None \<Rightarrow> (Inl MalformedEnvelope, w)
           | Some b \<Rightarrow> (Inr b, w))
      | _ \<Rightarrow> (Inl MalformedEnvelope, w))"

definition ec_keyFromPublic :: "('kp, 'sig) lib \<Rightarrow> val \<Rightarrow> 'kp run" where
  "ec_keyFromPublic L v w =
     (case v of
        VStr s \<Rightarrow> or_throw KeyFormatError (keyFromPublic L s) w
      | _ \<Rightarrow> or_throw KeyFormatError (keyFromPublic_other L (mem w) v) w)"

definition encrypting :: "('kp, 'sig) lib \<Rightarrow> string \<Rightarrow> bytes \<Rightarrow> bytes run" where
  "encrypting L pubkeyhex plain w =
     (case ecies_encrypt L (\<lambda>i. entropy w (drawn w + i)) pubkeyhex plain of
        (r, n) \<Rightarrow>
          ((case r of None \<Rightarrow> Inl EncryptionFailure | Some c \<Rightarrow> Inr c),
           w\<lparr>drawn := drawn w + n, calls := calls w @ [Encrypt pubkeyhex plain]\<rparr>))"

text \<open>
  \<^verbatim>\<open>point.encode('hex', compact)\<close>, which is also what
  \<^verbatim>\<open>key.getPublic(compact, 'hex')\<close> returns for the public point of \<open>key\<close>.
\<close>

definition encode_hex :: "(nat \<times> nat) option \<Rightarrow> bool \<Rightarrow> string run" where
  "encode_hex point compact =
     (case point of
        None \<Rightarrow> throw TypeError
      | Some P \<Rightarrow> return (toString_hex (encode P compact)))"

subsection \<open>The decoder\<close>

text \<open>
  \<^verbatim>\<open>
  exports.blackToRed = function( myprivkeyhex, blackobj ) {
    let msg = Buffer.from( blackobj.msghex, 'hex' )
    let sig = Buffer.from( blackobj.sighex, 'hex' )
    let msghash = crypto.createHash('sha256').update(msg).digest()

    let pubkey = ec.keyFromPublic( blackobj.spkhex, 'hex' )
    if (!pubkey.verify(msghash, sig))
      throw 'Sender verification failure'

    let red = ecies.decrypt( myprivkeyhex, msg )
    return JSON.parse( red )
  }
  \<close>
\<close>

definition blackToRed :: "('kp, 'sig) lib \<Rightarrow> string \<Rightarrow> val \<Rightarrow> val run" where
  "blackToRed L myprivkeyhex blackobj =
     seq (read_prop blackobj ''msghex'') (\<lambda>msghex.
     seq (Buffer_from_hex L msghex) (\<lambda>msg.
     seq (read_prop blackobj ''sighex'') (\<lambda>sighex.
     seq (Buffer_from_hex L sighex) (\<lambda>sig.
     seq (logged (Hash msg)) (\<lambda>_.
     seq (read_prop blackobj ''spkhex'') (\<lambda>spkhex.
     seq (logged (KeyFromPublic spkhex)) (\<lambda>_.
     seq (ec_keyFromPublic L spkhex) (\<lambda>pubkey.
     seq (logged (Verify (sha256 L msg) sig (verify L pubkey (sha256 L msg) sig))) (\<lambda>_.
     seq (or_throw VerifyError (verify L pubkey (sha256 L msg) sig)) (\<lambda>ok.
     if \<not> ok then throw SignatureVerificationFailure
     else
       seq (logged (Decrypt myprivkeyhex msg)) (\<lambda>_.
       seq (or_throw DecryptionFailure (ecies_decrypt L myprivkeyhex msg)) (\<lambda>red.
       seq (or_throw DeserializationError (text_from_buffer L red)) (\<lambda>j.
       JSON_parse j)))))))))))))"

subsection \<open>The encoder\<close>

text \<open>
  \<^verbatim>\<open>
  exports.redToBlack = function( txprivkeyhex, rxpubkeyhex, redobj ) {
    let redstr = JSON.stringify( redobj )
    let msg = ecies.encrypt( rxpubkeyhex, Buffer.from(redstr) )
    let msghash = crypto.createHash('sha256').update(msg).digest()

    let privkey = ec.keyFromPrivate( txprivkeyhex, 'hex' )
    let sig = Buffer.from( privkey.sign( msghash ).toDER() )
    let txpubkeyhex = privkey.getPublic( true, 'hex' )

    let result = JSON.parse( JSON.stringify(exports.BLACKMSG) )
    result.msghex = msg.toString('hex')
    result.sighex = sig.toString('hex')
    result.spkhex = txpubkeyhex

    return result
  }
  \<close>
  \<^verbatim>\<open>Buffer.from(undefined)\<close> throws, which is how a message that
  \<^verbatim>\<open>JSON.stringify\<close> maps to \<^verbatim>\<open>undefined\<close> fails. The signature is made
  before the public key is encoded, so a private key without a public point is signed
  with and fails only afterwards.
\<close>

definition redToBlack :: "('kp, 'sig) lib \<Rightarrow> string \<Rightarrow> string \<Rightarrow> val \<Rightarrow> val run" where
  "redToBlack L txprivkeyhex rxpubkeyhex redobj =
     seq (JSON_stringify redobj) (\<lambda>redstr.
     seq (or_throw SerializationError redstr) (\<lambda>j.
     seq (encrypting L rxpubkeyhex (buffer_from_text L j)) (\<lambda>msg.
     seq (logged (Hash msg)) (\<lambda>_.
     seq (logged (KeyFromPrivate txprivkeyhex)) (\<lambda>_.
     seq (or_throw KeyFormatError (keyFromPrivate L txprivkeyhex)) (\<lambda>privkey.
     seq (logged (Sign (sha256 L msg))) (\<lambda>_.
     seq (return (toDER L (sign L privkey (sha256 L msg)))) (\<lambda>sig.
     seq (encode_hex (getPublic L privkey) True) (\<lambda>txpubkeyhex.
     seq (read_prop exports ''BLACKMSG'') (\<lambda>template.
     seq (JSON_clone template) (\<lambda>result.
     seq (write_prop result ''msghex'' (VStr (toString_hex msg))) (\<lambda>_.
     seq (write_prop result ''sighex'' (VStr (toString_hex sig))) (\<lambda>_.
     seq (write_prop result ''spkhex'' (VStr txpubkeyhex)) (\<lambda>_.
     return result))))))))))))))"

subsection \<open>The key-pair generator\<close>

text \<open>
  \<^verbatim>\<open>
  exports.makeKey = function() {
    let privkeyhex = Buffer.from( crypto.randomBytes(32) ).toString('hex')
    let privkey = ec.keyFromPrivate( privkeyhex, 'hex' )
    let pubkeyhex = privkey.getPublic().encode( 'hex' )

    return {
      prv : privkeyhex,
      pub : pubkeyhex
    }
  }
  \<close>
  \<^verbatim>\<open>encode\<close> is called with one argument: its \<^verbatim>\<open>compact\<close> parameter is
  \<^verbatim>\<open>undefined\<close>, which counts as false. When the 32 bytes drawn are a key without
  a public point, \<^verbatim>\<open>encode\<close> throws and no pair is returned.
\<close>

definition makeKey :: "('kp, 'sig) lib \<Rightarrow> val run" where
  "makeKey L =
     seq (randomBytes 32) (\<lambda>rnd.
     seq (return (toString_hex rnd)) (\<lambda>privkeyhex.
     seq (logged (KeyFromPrivate privkeyhex)) (\<lambda>_.
     seq (or_throw KeyFormatError (keyFromPrivate L privkeyhex)) (\<lambda>privkey.
     seq (encode_hex (getPublic L privkey) False) (\<lambda>pubkeyhex.
     allocate (Obj [(''prv'', VStr privkeyhex), (''pub'', VStr pubkeyhex)]))))))"

subsection \<open>JSON data in the heap\<close>

text \<open>
  \<open>rep h v j\<close>: in the heap \<open>h\<close> the value \<open>v\<close> is the JSON data \<open>j\<close>, that is
  \<^verbatim>\<open>null\<close>, a boolean, a number, a string, an array of such data without further
  properties, or an object whose properties, in their order, are such data. Two values
  with the same \<open>j\<close> are structurally equal. A value with a property that is
  \<^verbatim>\<open>undefined\<close> is no JSON data.
\<close>

fun rep :: "heap \<Rightarrow> val \<Rightarrow> json \<Rightarrow> bool"
  and rep_props :: "heap \<Rightarrow> (string \<times> val) list \<Rightarrow> (string \<times> json) list \<Rightarrow> bool"
  and rep_elems :: "heap \<Rightarrow> val list \<Rightarrow> json list \<Rightarrow> bool"
where
  "rep h v JNull = (v = VNull)"
| "rep h v (JBool b) = (v = VBool b)"
| "rep h v (JNum n) = (v = VNum n)"
| "rep h v (JStr s) = (v = VStr s)"
| "rep h v (JArr js) =
     (case v of
        VRef a \<Rightarrow>
          a < length h \<and>
          (case h ! a of Arr xs fs \<Rightarrow> fs = [] \<and> rep_elems h xs js | Obj fs \<Rightarrow> False)
      | _ \<Rightarrow> False)"
| "rep h v (JObj jfs) =
     (case v of
        VRef a \<Rightarrow>
          a < length h \<and>
          (case h ! a of
             Obj fs \<Rightarrow> distinct (map fst fs) \<and> rep_props h fs jfs
           | Arr xs fs \<Rightarrow> False)
      | _ \<Rightarrow> False)"
| "rep_props h fs [] = (fs = [])"
| "rep_props h fs ((k, j) # jfs) =
     (case fs of
        [] \<Rightarrow> False
      | (k', v) # fs' \<Rightarrow> k' = k \<and> rep h v j \<and> rep_props h fs' jfs)"
| "rep_elems h vs [] = (vs = [])"
| "rep_elems h vs (j # js) =
     (case vs of [] \<Rightarrow> False | v # vs' \<Rightarrow> rep h v j \<and> rep_elems h vs' js)"

text \<open>
  The size of a JSON tree. An object that \<^verbatim>\<open>JSON.stringify\<close> has on its stack
  while it serializes JSON data is larger than the data: \<open>above h seen n\<close> says that
  every object on the stack \<open>seen\<close> is JSON data of a size beyond \<open>n\<close>, if it is JSON
  data at all.
\<close>

fun jsize :: "json \<Rightarrow> nat"
  and jsize_props :: "(string \<times> json) list \<Rightarrow> nat"
  and jsize_elems :: "json list \<Rightarrow> nat"
where
  "jsize (JArr js) = Suc (jsize_elems js)"
| "jsize (JObj jfs) = Suc (jsize_props jfs)"
| "jsize _ = 0"
| "jsize_props [] = 0"
| "jsize_props ((k, j) # jfs) = Suc (jsize j + jsize_props jfs)"
| "jsize_elems [] = 0"
| "jsize_elems (j # js) = Suc (jsize j + jsize_elems js)"

definition above :: "heap \<Rightarrow> nat list \<Rightarrow> nat \<Rightarrow> bool" where
  "above h seen n \<longleftrightarrow> (\<forall>b\<in>set seen. \<forall>j'. rep h (VRef b) j' \<longrightarrow> n < jsize j')"

text \<open>The JSON trees in which no object has a repeated key.\<close>

fun wf_json :: "json \<Rightarrow> bool"
  and wf_props :: "(string \<times> json) list \<Rightarrow> bool"
  and wf_elems :: "json list \<Rightarrow> bool"
where
  "wf_json (JArr js) = wf_elems js"
| "wf_json (JObj jfs) = (distinct (map fst jfs) \<and> wf_props jfs)"
| "wf_json _ = True"
| "wf_props [] = True"
| "wf_props ((k, j) # jfs) = (wf_json j \<and> wf_props jfs)"
| "wf_elems [] = True"
| "wf_elems (j # js) = (wf_json j \<and> wf_elems js)"

subsection \<open>A small instance of the libraries\<close>

text \<open>
  An executable stand-in for the libraries, on which the module can be run. It has the
  interface and the error behaviour of the real ones and none of their security: a key
  pair is a number, the public point of \<open>k\<close> is \<open>(k, k)\<close> (and the point at
  infinity for \<open>k = 0\<close>), a signature is the key
  and the hash behind the DER tag byte \<^verbatim>\<open>0x30\<close>, a ciphertext is one random byte, the
  recipient's key and the plaintext, and the hash is the identity. Of JSON texts it
  knows two, \<^verbatim>\<open>{"jsonrpc":"2.0","method":"x","id":1}\<close> and
  \<^verbatim>\<open>{"jsonrpc":"2.0","method":"x","params":[null,1],"id":5}\<close>, by their UTF-8 bytes.
\<close>

definition be_nat :: "bytes \<Rightarrow> nat" where
  "be_nat bs = foldl (\<lambda>n b. 256 * n + unat b) 0 bs"

definition decodePoint :: "bytes \<Rightarrow> nat option" where
  "decodePoint bs =
     (case bs of
        [] \<Rightarrow> None
      | t # rest \<Rightarrow>
          if (t = 2 \<or> t = 3) \<and> length rest = 32 then Some (be_nat rest)
          else if t = 4 \<and> length rest = 64 then Some (be_nat (take 32 rest))
          else None)"

definition request_x :: json where
  "request_x = JObj [(''jsonrpc'', JStr ''2.0''), (''method'', JStr ''x''), (''id'', JNum 1)]"

definition request_x_text :: bytes where
  "request_x_text =
     [123, 34, 106, 115, 111, 110, 114, 112, 99, 34, 58, 34, 50, 46, 48, 34, 44, 34, 109,
      101, 116, 104, 111, 100, 34, 58, 34, 120, 34, 44, 34, 105, 100, 34, 58, 49, 125]"

definition request_n :: json where
  "request_n = JObj [(''jsonrpc'', JStr ''2.0''), (''method'', JStr ''x''),
                     (''params'', JArr [JNull, JNum 1]), (''id'', JNum 5)]"

definition request_n_text :: bytes where
  "request_n_text =
     [123, 34, 106, 115, 111, 110, 114, 112, 99, 34, 58, 34, 50, 46, 48, 34, 44, 34, 109,
      101, 116, 104, 111, 100, 34, 58, 34, 120, 34, 44, 34, 112, 97, 114, 97, 109, 115, 34,
      58, 91, 110, 117, 108, 108, 44, 49, 93, 44, 34, 105, 100, 34, 58, 53, 125]"

definition stub :: "(nat, bytes) lib" where
  "stub = \<lparr>
     sha256 = (\<lambda>b. b),
     keyFromPublic = (\<lambda>s. decodePoint (from_hex s)),
     keyFromPublic_other = (\<lambda>h v. None),
     keyFromPrivate = (\<lambda>s. Some (be_nat (from_hex s))),
     getPublic = (\<lambda>k. if k = 0 then None else Some (k, k)),
     sign = (\<lambda>k h. be32 k @ h),
     toDER = (\<lambda>s. 48 # s),
     verify = (\<lambda>k h s.
        case s of [] \<Rightarrow> None | t # body \<Rightarrow> if t = 48 then Some (body = be32 k @ h) else None),
     ecies_encrypt = (\<lambda>rnd pk m.
        case decodePoint (from_hex pk) of
          None \<Rightarrow> (None, 0)
        | Some x \<Rightarrow> (Some (rnd 0 # be32 x @ m), 1)),
     ecies_decrypt = (\<lambda>sk c.
        case c of
          [] \<Rightarrow> None
        | e # body \<Rightarrow>
            if 32 \<le> length body \<and> take 32 body = be32 (be_nat (from_hex sk))
            then Some (drop 32 body) else None),
     buffer_from_text = (\<lambda>j.
        if j = request_x then request_x_text
        else if j = request_n then request_n_text else []),
     text_from_buffer = (\<lambda>b.
        if b = request_x_text then Some request_x
        else if b = request_n_text then Some request_n else None),
     buffer_from_object = (\<lambda>h a. None) \<rparr>"

text \<open>
  Two private keys and the key 0, which has no public point; the public key of the
  second as \<^verbatim>\<open>makeKey\<close> writes it, and the world after the module is loaded, with
  an entropy source that yields 171, 172, ...
\<close>

definition skA :: string where
  "skA = ''0000000000000000000000000000000000000000000000000000000000000007''"

definition skZ :: string where
  "skZ = ''0000000000000000000000000000000000000000000000000000000000000000''"

definition skB :: string where
  "skB = ''0000000000000000000000000000000000000000000000000000000000000009''"

definition pkB :: string where
  "pkB = ''04'' @ ''0000000000000000000000000000000000000000000000000000000000000009''
              @ ''0000000000000000000000000000000000000000000000000000000000000009''"

text \<open>The public key of the first, as \<^verbatim>\<open>redToBlack\<close> writes it into \<^verbatim>\<open>spkhex\<close>.\<close>

definition spkA :: string where
  "spkA = toString_hex (encode (7, 7) True)"

text \<open>
  The ciphertext of the example request for the second key when the entropy source
  yields 171, and the first key's signature of it.
\<close>

definition msg_x :: bytes where
  "msg_x = 171 # be32 9 @ request_x_text"

definition sig_x :: bytes where
  "sig_x = 48 # be32 7 @ msg_x"

definition world0 :: world where
  "world0 = \<lparr> mem = init_heap, entropy = (\<lambda>i. word_of_nat (171 + i)), drawn = 0, calls = [] \<rparr>"

text \<open>The private key, in hex, that \<^verbatim>\<open>makeKey\<close> draws in that world.\<close>

definition prv0 :: string where
  "prv0 = toString_hex (map (\<lambda>i. entropy world0 (drawn world0 + i)) [0..<32])"

text \<open>The public point of that key in the stand-in library.\<close>

definition point0 :: "nat \<times> nat" where
  "point0 = (be_nat (from_hex prv0), be_nat (from_hex prv0))"

text \<open>The same world with an entropy source that yields only zero bytes.\<close>

definition worldZ :: world where
  "worldZ = world0\<lparr>entropy := (\<lambda>i. 0)\<rparr>"

text \<open>
  The world of a recipient that has read an envelope off the wire into address 10.
\<close>

definition received :: "string \<Rightarrow> string \<Rightarrow> string \<Rightarrow> world" where
  "received msghex sighex spkhex = world0\<lparr>mem := init_heap @
     [Obj [(''msghex'', VStr msghex), (''sighex'', VStr sighex), (''spkhex'', VStr spkhex)]]\<rparr>"

text \<open>The world of a client that has built the example request at address 10.\<close>

definition world1 :: world where
  "world1 = world0\<lparr>mem := init_heap @
     [Obj [(''jsonrpc'', VStr ''2.0''), (''method'', VStr ''x''), (''id'', VNum 1)]]\<rparr>"

text \<open>
  The world of a client that has built, at address 10, the request
  \<^verbatim>\<open>{jsonrpc: "2.0", method: "x", params: [undefined, 1], id: 5}\<close>, with its
  array of parameters at address 11.
\<close>

definition world2 :: world where
  "world2 = world0\<lparr>mem := init_heap @
     [Obj [(''jsonrpc'', VStr ''2.0''), (''method'', VStr ''x''), (''params'', VRef 11),
           (''id'', VNum 5)],
      Arr [VUndefined, VNum 1] []]\<rparr>"

subsection \<open>Auxiliary notions for the statements\<close>

text \<open>
  What \<^verbatim>\<open>blackToRed\<close> does once the signature is accepted, written out: the
  decryption, the reading of the JSON text and the construction of the result.
\<close>

definition after_verify :: "('kp, 'sig) lib \<Rightarrow> string \<Rightarrow> bytes \<Rightarrow> world \<Rightarrow> (error + val) \<times> world" where
  "after_verify L sk msg w =
     (case ecies_decrypt L sk msg of
        None \<Rightarrow> (Inl DecryptionFailure, w\<lparr>calls := calls w @ [Decrypt sk msg]\<rparr>)
      | Some red \<Rightarrow>
          (case text_from_buffer L red of
             None \<Rightarrow> (Inl DeserializationError, w\<lparr>calls := calls w @ [Decrypt sk msg]\<rparr>)
           | Some j \<Rightarrow>
               (Inr (fst (parse j (mem w))),
                w\<lparr>calls := calls w @ [Decrypt sk msg], mem := snd (parse j (mem w))\<rparr>)))"

text \<open>
  The primitive values that \<^verbatim>\<open>Buffer.from(v, 'hex')\<close> refuses with a
  \<^verbatim>\<open>TypeError\<close>, and all the values on which it throws: those, and the objects
  that the library's conversion of an object to a buffer does not accept.
\<close>

fun refused :: "val \<Rightarrow> bool" where
  "refused (VStr s) = False"
| "refused (VRef a) = False"
| "refused _ = True"

fun rejected :: "('kp, 'sig) lib \<Rightarrow> heap \<Rightarrow> val \<Rightarrow> bool" where
  "rejected L h (VStr s) = False"
| "rejected L h (VRef a) = (buffer_from_object L h a = None)"
| "rejected L h _ = True"

section \<open>Properties\<close>

lemma get_prop_field: "\<not> nullish v \<Longrightarrow> get_prop h v k = Inr (field h v k)"
  by (cases v) (auto simp: field_def split: obj.splits)

lemma prop_not_null_field:
  "\<not> nullish v \<Longrightarrow> prop_not_null h v k = Inr (\<not> nullish (field h v k))"
  by (simp add: prop_not_null_def get_prop_field)

lemma prop_is_str_field:
  "\<not> nullish v \<Longrightarrow> prop_is_str h v k s = Inr (field h v k = VStr s)"
  by (simp add: prop_is_str_def get_prop_field)

lemma isBlackMsg_eq_spec: "isBlackMsg h obj = Inr (isBlackMsg_spec h obj)"
  by (cases "nullish obj")
    (simp_all add: isBlackMsg_def isBlackMsg_spec_def and_also_def prop_not_null_field)

text \<open>
  C8. \<^verbatim>\<open>isBlackMsg(obj)\<close> never throws and is true exactly when \<open>obj\<close> and its three
  fields \<^verbatim>\<open>msghex\<close>, \<^verbatim>\<open>sighex\<close>, \<^verbatim>\<open>spkhex\<close> are all non-null; the field contents are
  not looked at (strings that are not hex pass), and the three examples of the
  specification evaluate as stated.
\<close>

theorem isBlackMsg_iff:
  "isBlackMsg h obj = Inr (isBlackMsg_spec h obj)
   \<and> isBlackMsg [Obj [(''msghex'', VStr ''a''), (''sighex'', VStr ''b''), (''spkhex'', VStr ''c'')]]
        (VRef 0) = Inr True
   \<and> isBlackMsg [Obj [(''msghex'', VStr ''zz''), (''sighex'', VNum 7), (''spkhex'', VBool False)]]
        (VRef 0) = Inr True
   \<and> isBlackMsg [Obj [(''msghex'', VStr ''a'')]] (VRef 0) = Inr False
   \<and> isBlackMsg [] VNull = Inr False"
  unfolding isBlackMsg_eq_spec by (simp add: isBlackMsg_spec_def field_def)

text \<open>
  C7. \<^verbatim>\<open>isJSONRPC(obj)\<close> never throws and is true exactly when \<open>obj\<close> is non-null,
  \<^verbatim>\<open>obj.jsonrpc\<close> is the string \<^verbatim>\<open>"2.0"\<close>, \<^verbatim>\<open>obj.id\<close> is non-null and one of
  \<^verbatim>\<open>method\<close>, \<^verbatim>\<open>error\<close>, \<^verbatim>\<open>result\<close> is non-null; the three examples of the
  specification evaluate as stated.
\<close>

theorem isJSONRPC_iff:
  "isJSONRPC h obj = Inr (isJSONRPC_spec h obj)
   \<and> isJSONRPC [Obj [(''jsonrpc'', VStr ''2.0''), (''id'', VNum 1), (''method'', VStr ''x'')]]
        (VRef 0) = Inr True
   \<and> isJSONRPC [Obj [(''jsonrpc'', VStr ''1.0''), (''id'', VNum 1), (''method'', VStr ''x'')]]
        (VRef 0) = Inr False
   \<and> isJSONRPC [Obj [(''jsonrpc'', VStr ''2.0''), (''id'', VNum 1)]] (VRef 0) = Inr False"
proof -
  have general: "isJSONRPC h obj = Inr (isJSONRPC_spec h obj)" for h obj
    by (cases "nullish obj")
      (auto simp: isJSONRPC_def isJSONRPC_spec_def and_also_def or_else_def
        prop_not_null_field prop_is_str_field)
  show ?thesis
    unfolding general by (simp add: isJSONRPC_spec_def field_def)
qed

subsection \<open>The factories copy the templates\<close>

lemma intact_length: "templates_intact h \<Longrightarrow> 10 \<le> length h"
proof -
  assume "templates_intact h"
  then have "length (take 10 h) = 10"
    by (simp add: templates_intact_def init_heap_def)
  then show ?thesis by simp
qed

lemma intact_nth: "templates_intact h \<Longrightarrow> i < 10 \<Longrightarrow> h ! i = init_heap ! i"
  unfolding templates_intact_def by (metis nth_take)

lemma intact_append: "templates_intact h \<Longrightarrow> templates_intact (h @ t)"
  using intact_length [of h] by (simp add: templates_intact_def)

lemma intact_init: "templates_intact init_heap"
  by (simp add: templates_intact_def init_heap_def)

lemma intact_exports:
  assumes "templates_intact h"
  shows "get_prop h exports ''REDHELLO'' = Inr (VRef 2)"
    and "get_prop h exports ''ERRORRESPONSE'' = Inr (VRef 8)"
    and "get_prop h exports ''BLACKMSG'' = Inr (VRef 1)"
proof -
  have "h ! 0 = init_heap ! 0"
    using intact_nth [OF assms, of 0] by simp
  moreover have "0 < length h"
    using intact_length [OF assms] by arith
  ultimately show "get_prop h exports ''REDHELLO'' = Inr (VRef 2)"
    and "get_prop h exports ''ERRORRESPONSE'' = Inr (VRef 8)"
    and "get_prop h exports ''BLACKMSG'' = Inr (VRef 1)"
    by (simp_all add: exports_def init_heap_def)
qed

lemma clone_REDHELLO:
  assumes "templates_intact h"
  shows "clone h (VRef 2) =
    Inr (VRef (Suc (length h)),
         h @ [Arr [] [],
              Obj [(''jsonrpc'', VStr ''2.0''), (''method'', VStr ''hello''),
                   (''params'', VRef (length h)), (''id'', VNum 0)]])"
proof -
  have len: "2 < length h" "3 < length h"
    using intact_length [OF assms] by simp_all
  have objs:
    "h ! 2 = Obj [(''jsonrpc'', VStr ''2.0''), (''method'', VStr ''hello''),
                  (''params'', VRef 3), (''id'', VNum 0)]"
    "h ! 3 = Arr [] []"
    using intact_nth [OF assms, of 2] intact_nth [OF assms, of 3]
    by (simp_all add: init_heap_def)
  have "stringify [] h (VRef 2) =
      Inr (Some (JObj [(''jsonrpc'', JStr ''2.0''), (''method'', JStr ''hello''),
                       (''params'', JArr []), (''id'', JNum 0)]))"
    using len by (simp add: objs)
  then show ?thesis
    by (simp add: clone_def)
qed

lemma clone_ERRORRESPONSE:
  assumes "templates_intact h"
  shows "clone h (VRef 8) =
    Inr (VRef (Suc (length h)),
         h @ [Obj [(''code'', VNum 0), (''message'', VStr '''')],
              Obj [(''jsonrpc'', VStr ''2.0''), (''error'', VRef (length h)),
                   (''id'', VNum 0)]])"
proof -
  have len: "8 < length h" "9 < length h"
    using intact_length [OF assms] by simp_all
  have objs:
    "h ! 8 = Obj [(''jsonrpc'', VStr ''2.0''), (''error'', VRef 9), (''id'', VNum 0)]"
    "h ! 9 = Obj [(''code'', VNum 0), (''message'', VStr '''')]"
    using intact_nth [OF assms, of 8] intact_nth [OF assms, of 9]
    by (simp_all add: init_heap_def)
  have "stringify [] h (VRef 8) =
      Inr (Some (JObj [(''jsonrpc'', JStr ''2.0''),
                       (''error'', JObj [(''code'', JNum 0), (''message'', JStr '''')]),
                       (''id'', JNum 0)]))"
    using len by (simp add: objs)
  then show ?thesis
    by (simp add: clone_def)
qed

lemma makeRedHello_run:
  assumes "templates_intact h"
  shows "makeRedHello s h =
    Inr (VRef (Suc (length h)),
         h @ [Arr [] [],
              Obj [(''jsonrpc'', VStr ''2.0''), (''method'', VStr ''hello''),
                   (''params'', VRef (Suc (Suc (length h)))), (''id'', VNum 0)],
              Arr [s] []])"
  by (simp add: makeRedHello_def bind_def intact_exports [OF assms] clone_REDHELLO [OF assms]
      list_update_append nth_append)

lemma makeErrorObj_run:
  assumes "templates_intact h"
  shows "makeErrorObj c m i h =
    Inr (VRef (Suc (length h)),
         h @ [Obj [(''code'', c), (''message'', m)],
              Obj [(''jsonrpc'', VStr ''2.0''), (''error'', VRef (length h)), (''id'', i)]])"
  by (simp add: makeErrorObj_def bind_def intact_exports [OF assms]
      clone_ERRORRESPONSE [OF assms] list_update_append nth_append)

text \<open>
  C9. With the module's templates as loaded, \<^verbatim>\<open>makeRedHello(s)\<close> returns a new object
  \<^verbatim>\<open>{jsonrpc:"2.0", method:"hello", params:[s], id:0}\<close> and
  \<^verbatim>\<open>makeErrorObj(c, m, i)\<close> a new object
  \<^verbatim>\<open>{jsonrpc:"2.0", error:{code:c, message:m}, id:i}\<close>. Every object of the result
  is allocated by the call (its address is beyond the heap the call started from, so it
  is shared with no template and with no earlier result), every object that existed
  before the call is unchanged, and the templates are intact afterwards, so the same
  holds for the next call.
\<close>

theorem factories_return_fresh_copies:
  assumes "templates_intact h"
  shows "makeRedHello s h =
           Inr (VRef (Suc (length h)),
                h @ [Arr [] [],
                     Obj [(''jsonrpc'', VStr ''2.0''), (''method'', VStr ''hello''),
                          (''params'', VRef (Suc (Suc (length h)))), (''id'', VNum 0)],
                     Arr [s] []])
       \<and> makeErrorObj c m i h =
           Inr (VRef (Suc (length h)),
                h @ [Obj [(''code'', c), (''message'', m)],
                     Obj [(''jsonrpc'', VStr ''2.0''), (''error'', VRef (length h)),
                          (''id'', i)]])
       \<and> (\<exists>r h'. makeRedHello s h = Inr (r, h') \<and> take (length h) h' = h \<and>
             templates_intact h')
       \<and> (\<exists>r h'. makeErrorObj c m i h = Inr (r, h') \<and> take (length h) h' = h \<and>
             templates_intact h')"
  using assms
  by (simp add: makeRedHello_run makeErrorObj_run intact_append)

theorem factories_return_fresh_copies_witness:
  "templates_intact init_heap
   \<and> (case makeRedHello (VStr ''abc'') init_heap of
        Inl e \<Rightarrow> False
      | Inr (r, h') \<Rightarrow>
          r = VRef 11 \<and> take 10 h' = init_heap \<and>
          stringify [] h' r =
            Inr (Some (JObj [(''jsonrpc'', JStr ''2.0''), (''method'', JStr ''hello''),
                             (''params'', JArr [JStr ''abc'']), (''id'', JNum 0)])))
   \<and> (case makeErrorObj (VNum 404) (VStr ''not found'') (VNum 7) init_heap of
        Inl e \<Rightarrow> False
      | Inr (r, h') \<Rightarrow>
          r = VRef 11 \<and> take 10 h' = init_heap \<and>
          stringify [] h' r =
            Inr (Some (JObj [(''jsonrpc'', JStr ''2.0''),
                             (''error'', JObj [(''code'', JNum 404),
                                               (''message'', JStr ''not found'')]),
                             (''id'', JNum 7)])))"
proof -
  have len: "length init_heap = 10"
    by (simp add: init_heap_def)
  note run = factories_return_fresh_copies [OF intact_init, of "VStr ''abc''" "VNum 404"
      "VStr ''not found''" "VNum 7", unfolded len]
  have hello: "makeRedHello (VStr ''abc'') init_heap =
      Inr (VRef 11,
           init_heap @ [Arr [] [],
             Obj [(''jsonrpc'', VStr ''2.0''), (''method'', VStr ''hello''),
                  (''params'', VRef 12), (''id'', VNum 0)],
             Arr [VStr ''abc''] []])"
    using run by simp
  have err: "makeErrorObj (VNum 404) (VStr ''not found'') (VNum 7) init_heap =
      Inr (VRef 11,
           init_heap @ [Obj [(''code'', VNum 404), (''message'', VStr ''not found'')],
             Obj [(''jsonrpc'', VStr ''2.0''), (''error'', VRef 10), (''id'', VNum 7)]])"
    using run by simp
  show ?thesis
    unfolding hello err by (simp add: intact_init len nth_append)
qed

theorem isJSONRPC_iff_witness:
  "isJSONRPC_spec [Obj [(''jsonrpc'', VStr ''2.0''), (''id'', VNum 0), (''error'', VNull),
                        (''result'', VBool False)]] (VRef 0)
   \<and> isJSONRPC [Obj [(''jsonrpc'', VStr ''2.0''), (''id'', VNum 0), (''error'', VNull),
                      (''result'', VBool False)]] (VRef 0) = Inr True"
  using isJSONRPC_iff [of "[Obj [(''jsonrpc'', VStr ''2.0''), (''id'', VNum 0),
      (''error'', VNull), (''result'', VBool False)]]" "VRef 0"]
  by (simp add: isJSONRPC_spec_def field_def)

subsection \<open>Hex coding\<close>

lemma unhex_hexdigit: "n < 16 \<Longrightarrow> unhex (hexdigit n) = Some n"
proof -
  assume "n < 16"
  then have "n \<in> {0, 1, 2, 3, 4, 5, 6, 7, 8, 9, 10, 11, 12, 13, 14, 15}"
    by (simp add: less_Suc_eq numeral_eq_Suc)
  then show ?thesis
    by (auto simp: unhex_def hexdigit_def)
qed

lemma unat_byte_div: "unat (b :: byte) div 16 < 16"
proof -
  have "unat b < 256"
    using unsigned_less [of b, where ?'a = nat] by simp
  then show ?thesis by simp
qed

lemma from_hex_toString_hex: "from_hex (toString_hex bs) = bs"
  by (induction bs) (simp_all add: unhex_hexdigit unat_byte_div)

lemma length_toString_hex: "length (toString_hex bs) = 2 * length bs"
  by (induction bs) simp_all

lemma length_be32: "length (be32 n) = 32"
  by (simp add: be32_def)

lemma length_encode: "length (encode P c) = (if c then 33 else 65)"
  by (simp add: encode_def length_be32)

subsection \<open>JSON data survives \<^verbatim>\<open>JSON.stringify\<close> and \<^verbatim>\<open>JSON.parse\<close>\<close>

lemma rep_ArrD:
  assumes "rep h v (JArr js)"
  obtains a xs where "v = VRef a" "a < length h" "h ! a = Arr xs []" "rep_elems h xs js"
  using assms by (auto split: val.splits obj.splits)

lemma rep_ObjD:
  assumes "rep h v (JObj jfs)"
  obtains a fs where "v = VRef a" "a < length h" "h ! a = Obj fs" "distinct (map fst fs)"
    "rep_props h fs jfs"
  using assms by (auto split: val.splits obj.splits)

lemma rep_Ref_ArrD:
  assumes "rep h (VRef a) (JArr js)"
  obtains xs where "a < length h" "h ! a = Arr xs []" "rep_elems h xs js"
  using assms by (auto split: obj.splits)

lemma rep_Ref_ObjD:
  assumes "rep h (VRef a) (JObj jfs)"
  obtains fs where "a < length h" "h ! a = Obj fs" "distinct (map fst fs)"
    "rep_props h fs jfs"
  using assms by (auto split: obj.splits)

lemma rep_props_ConsD:
  assumes "rep_props h fs ((k, j) # jfs)"
  obtains v fs' where "fs = (k, v) # fs'" "rep h v j" "rep_props h fs' jfs"
  using assms by (auto split: list.splits)

lemma rep_elems_ConsD:
  assumes "rep_elems h vs (j # js)"
  obtains v vs' where "vs = v # vs'" "rep h v j" "rep_elems h vs' js"
  using assms by (auto split: list.splits)

lemma rep_functional:
  "rep h v j \<Longrightarrow> rep h v j' \<Longrightarrow> j = j'"
  "rep_props h fs jfs \<Longrightarrow> rep_props h fs jfs' \<Longrightarrow> jfs = jfs'"
  "rep_elems h vs js \<Longrightarrow> rep_elems h vs js' \<Longrightarrow> js = js'"
proof (induction h v j and h fs jfs and h vs js arbitrary: j' and jfs' and js'
    rule: rep_rep_props_rep_elems.induct)
  case (1 h v)
  then show ?case by (cases j') simp_all
next
  case (2 h v b)
  then show ?case by (cases j') simp_all
next
  case (3 h v n)
  then show ?case by (cases j') simp_all
next
  case (4 h v s)
  then show ?case by (cases j') simp_all
next
  case (5 h v js)
  from "5.prems"(1) obtain a xs where
    v: "v = VRef a" and a: "h ! a = Arr xs []" and xs: "rep_elems h xs js"
    by (rule rep_ArrD)
  from "5.prems"(2) obtain js' where j': "j' = JArr js'" and xs': "rep_elems h xs js'"
    unfolding v using a by (cases j') simp_all
  from "5.IH" [OF v a xs xs'] show ?case
    by (simp add: j')
next
  case (6 h v jfs)
  from "6.prems"(1) obtain a fs where
    v: "v = VRef a" and a: "h ! a = Obj fs" and fs: "rep_props h fs jfs"
    by (rule rep_ObjD)
  from "6.prems"(2) obtain jfs' where j': "j' = JObj jfs'" and fs': "rep_props h fs jfs'"
    unfolding v using a by (cases j') simp_all
  from "6.IH" [OF v a fs fs'] show ?case
    by (simp add: j')
next
  case (7 h fs)
  then show ?case by (cases jfs') auto
next
  case (8 h fs k j jfs)
  from "8.prems"(1) obtain v fs' where
    fs: "fs = (k, v) # fs'" and v: "rep h v j" and fs': "rep_props h fs' jfs"
    by (rule rep_props_ConsD)
  from "8.prems"(2) obtain j2 jfs2 where
    jfs': "jfs' = (k, j2) # jfs2" and v2: "rep h v j2" and fs2: "rep_props h fs' jfs2"
    unfolding fs by (cases jfs') auto
  from "8.IH"(1) [OF fs refl v v2] "8.IH"(2) [OF fs refl fs' fs2] show ?case
    by (simp add: jfs')
next
  case (9 h vs)
  then show ?case by (cases js') auto
next
  case (10 h vs j js)
  from "10.prems"(1) obtain v vs' where
    vs: "vs = v # vs'" and v: "rep h v j" and vs': "rep_elems h vs' js"
    by (rule rep_elems_ConsD)
  from "10.prems"(2) obtain j2 js2 where
    js': "js' = j2 # js2" and v2: "rep h v j2" and vs2: "rep_elems h vs' js2"
    unfolding vs by (cases js') auto
  from "10.IH"(1) [OF vs v v2] "10.IH"(2) [OF vs vs' vs2] show ?case
    by (simp add: js')
qed


lemma above_mono: "above h seen n \<Longrightarrow> m \<le> n \<Longrightarrow> above h seen m"
  unfolding above_def by (meson le_less_trans)

lemma above_push:
  assumes "above h seen (jsize j)" and "rep h (VRef a) j" and "n < jsize j"
  shows "above h (a # seen) n"
  unfolding above_def
proof (intro ballI allI impI)
  fix b j'
  assume b: "b \<in> set (a # seen)" and r: "rep h (VRef b) j'"
  show "n < jsize j'"
  proof (cases "b = a")
    case True
    with r assms(2) have "j' = j"
      using rep_functional(1) by blast
    with assms(3) show ?thesis by simp
  next
    case False
    with b have "b \<in> set seen" by simp
    with assms(1) r have "jsize j < jsize j'"
      unfolding above_def by blast
    with assms(3) show ?thesis by simp
  qed
qed

lemma above_fresh:
  assumes "above h seen (jsize j)" and "rep h (VRef a) j"
  shows "a \<notin> set seen"
proof
  assume "a \<in> set seen"
  with assms have "jsize j < jsize j"
    unfolding above_def by blast
  then show False by simp
qed

lemma stringify_rep:
  "rep h v j \<Longrightarrow> above h seen (jsize j) \<Longrightarrow> stringify seen h v = Inr (Some j)"
  "rep_props h fs jfs \<Longrightarrow> above h seen (jsize_props jfs) \<Longrightarrow>
     stringify_props seen h fs = Inr jfs"
  "rep_elems h vs js \<Longrightarrow> above h seen (jsize_elems js) \<Longrightarrow>
     stringify_elems seen h vs = Inr js"
proof (induction seen h v and seen h fs and seen h vs arbitrary: j and jfs and js
    rule: stringify_stringify_props_stringify_elems.induct)
  case (1 seen h)
  then show ?case by (cases j) simp_all
next
  case (2 seen h)
  then show ?case by (cases j) simp_all
next
  case (3 seen h b)
  then show ?case by (cases j) simp_all
next
  case (4 seen h n)
  then show ?case by (cases j) simp_all
next
  case (5 seen h s)
  then show ?case by (cases j) simp_all
next
  case (6 seen h a)
  have fresh: "a \<notin> set seen"
    using above_fresh [OF "6.prems"(2) "6.prems"(1)] .
  show ?case
  proof (cases j)
    case (JArr js)
    with "6.prems"(1) have "rep h (VRef a) (JArr js)" by simp
    then obtain xs where
      a: "a < length h" "h ! a = Arr xs []" and xs: "rep_elems h xs js"
      by (rule rep_Ref_ArrD)
    have "above h (a # seen) (jsize_elems js)"
      using above_push [OF "6.prems"(2) "6.prems"(1)] JArr by simp
    with "6.IH"(2) [OF _ a(2) xs] fresh a
    have "stringify_elems (a # seen) h xs = Inr js"
      by simp
    with fresh a JArr show ?thesis by simp
  next
    case (JObj jfs)
    with "6.prems"(1) have "rep h (VRef a) (JObj jfs)" by simp
    then obtain fs where
      a: "a < length h" "h ! a = Obj fs" and fs: "rep_props h fs jfs"
      by (rule rep_Ref_ObjD)
    have "above h (a # seen) (jsize_props jfs)"
      using above_push [OF "6.prems"(2) "6.prems"(1)] JObj by simp
    with "6.IH"(1) [OF _ a(2) fs] fresh a
    have "stringify_props (a # seen) h fs = Inr jfs"
      by simp
    with fresh a JObj show ?thesis by simp
  qed (use "6.prems"(1) in simp_all)
next
  case (7 seen h)
  then show ?case by (cases jfs) auto
next
  case (8 seen h k v fs)
  from "8.prems"(1) obtain j jfs' where
    jfs: "jfs = (k, j) # jfs'" and v: "rep h v j" and fs: "rep_props h fs jfs'"
    by (cases jfs) auto
  have av: "above h seen (jsize j)" and afs: "above h seen (jsize_props jfs')"
    using "8.prems"(2) unfolding jfs by (auto elim: above_mono)
  have sv: "stringify seen h v = Inr (Some j)"
    using "8.IH"(1) [OF v av] .
  have "stringify_props seen h fs = Inr jfs'"
    using "8.IH"(3) [OF sv refl fs afs] .
  with sv show ?case by (simp add: jfs)
next
  case (9 seen h)
  then show ?case by (cases js) auto
next
  case (10 seen h v vs)
  from "10.prems"(1) obtain j js' where
    js: "js = j # js'" and v: "rep h v j" and vs: "rep_elems h vs js'"
    by (cases js) auto
  have av: "above h seen (jsize j)" and avs: "above h seen (jsize_elems js')"
    using "10.prems"(2) unfolding js by (auto elim: above_mono)
  have sv: "stringify seen h v = Inr (Some j)"
    using "10.IH"(1) [OF v av] .
  have "stringify_elems seen h vs = Inr js'"
    using "10.IH"(2) [OF sv vs avs] .
  with sv show ?case by (simp add: js)
qed

lemma stringify_of_rep: "rep h v j \<Longrightarrow> stringify [] h v = Inr (Some j)"
  by (rule stringify_rep(1)) (simp_all add: above_def)


lemma rep_append:
  "rep h v j \<Longrightarrow> rep (h @ t) v j"
  "rep_props h fs jfs \<Longrightarrow> rep_props (h @ t) fs jfs"
  "rep_elems h vs js \<Longrightarrow> rep_elems (h @ t) vs js"
proof (induction h v j and h fs jfs and h vs js rule: rep_rep_props_rep_elems.induct)
  case (5 h v js)
  from "5.prems" obtain a xs where
    v: "v = VRef a" and a: "a < length h" "h ! a = Arr xs []" and xs: "rep_elems h xs js"
    by (rule rep_ArrD)
  from "5.IH" [OF v a(2) xs] a show ?case
    by (simp add: v nth_append)
next
  case (6 h v jfs)
  from "6.prems" obtain a fs where
    v: "v = VRef a" and a: "a < length h" "h ! a = Obj fs" "distinct (map fst fs)"
    and fs: "rep_props h fs jfs"
    by (rule rep_ObjD)
  from "6.IH" [OF v a(2) fs] a show ?case
    by (simp add: v nth_append)
next
  case (8 h fs k j jfs)
  from "8.prems" obtain v fs' where
    fs: "fs = (k, v) # fs'" and v: "rep h v j" and fs': "rep_props h fs' jfs"
    by (rule rep_props_ConsD)
  from "8.IH"(1) [OF fs refl v] "8.IH"(2) [OF fs refl fs'] show ?case
    by (simp add: fs)
next
  case (10 h vs j js)
  from "10.prems" obtain v vs' where
    vs: "vs = v # vs'" and v: "rep h v j" and vs': "rep_elems h vs' js"
    by (rule rep_elems_ConsD)
  from "10.IH"(1) [OF vs v] "10.IH"(2) [OF vs vs'] show ?case
    by (simp add: vs)
qed simp_all

lemma parse_extends:
  "parse j h = (v, h') \<Longrightarrow> \<exists>t. h' = h @ t"
  "parse_props jfs acc h = (fs, h') \<Longrightarrow> \<exists>t. h' = h @ t"
  "parse_elems js h = (vs, h') \<Longrightarrow> \<exists>t. h' = h @ t"
proof (induction j h and jfs acc h and js h arbitrary: v h' and fs h' and vs h'
    rule: parse_parse_props_parse_elems.induct)
  case (5 js h)
  obtain vs h1 where p: "parse_elems js h = (vs, h1)"
    by (cases "parse_elems js h")
  from "5.IH" [OF p] obtain t where "h1 = h @ t" ..
  with "5.prems" p show ?case by auto
next
  case (6 jfs h)
  obtain fs h1 where p: "parse_props jfs [] h = (fs, h1)"
    by (cases "parse_props jfs [] h")
  from "6.IH" [OF p] obtain t where "h1 = h @ t" ..
  with "6.prems" p show ?case by auto
next
  case (8 k j jfs acc h)
  obtain v h1 where p: "parse j h = (v, h1)"
    by (cases "parse j h")
  from "8.IH"(1) [OF p] obtain t where t: "h1 = h @ t" ..
  from "8.prems" p have "parse_props jfs (set_field acc k v) h1 = (fs, h')"
    by simp
  from "8.IH"(2) [OF p [symmetric] this] obtain t' where "h' = h1 @ t'" ..
  with t show ?case by simp
next
  case (10 j js h)
  obtain v h1 where p: "parse j h = (v, h1)"
    by (cases "parse j h")
  from "10.IH"(1) [OF p] obtain t where t: "h1 = h @ t" ..
  obtain vs' h2 where q: "parse_elems js h1 = (vs', h2)"
    by (cases "parse_elems js h1")
  from "10.IH"(2) [OF p [symmetric] q] obtain t' where t': "h2 = h1 @ t'" ..
  from "10.prems" p q have "h' = h2" by simp
  with t t' show ?case by simp
qed auto


lemma set_field_fresh: "k \<notin> set (map fst fs) \<Longrightarrow> set_field fs k v = fs @ [(k, v)]"
  by (induction fs) auto

lemma rep_props_snoc:
  "rep_props h fs jfs \<Longrightarrow> rep h v j \<Longrightarrow> rep_props h (fs @ [(k, v)]) (jfs @ [(k, j)])"
proof (induction jfs arbitrary: fs)
  case Nil
  then show ?case by simp
next
  case (Cons a jfs)
  obtain k' j' where a: "a = (k', j')" by (cases a)
  from Cons.prems(1) obtain v' fs' where
    fs: "fs = (k', v') # fs'" and v': "rep h v' j'" and fs': "rep_props h fs' jfs"
    unfolding a by (rule rep_props_ConsD)
  from Cons.IH [OF fs' Cons.prems(2)] v' show ?case
    by (simp add: a fs)
qed

lemma rep_props_keys: "rep_props h fs jfs \<Longrightarrow> map fst jfs = map fst fs"
proof (induction jfs arbitrary: fs)
  case Nil
  then show ?case by simp
next
  case (Cons a jfs)
  obtain k' j' where a: "a = (k', j')" by (cases a)
  from Cons.prems obtain v' fs' where
    fs: "fs = (k', v') # fs'" and fs': "rep_props h fs' jfs"
    unfolding a by (rule rep_props_ConsD)
  from Cons.IH [OF fs'] show ?case
    by (simp add: a fs)
qed

lemma parse_rep:
  "wf_json j \<Longrightarrow> parse j h = (v, h') \<Longrightarrow> rep h' v j"
  "wf_props jfs \<Longrightarrow> distinct (map fst acc @ map fst jfs) \<Longrightarrow> rep_props h acc jacc \<Longrightarrow>
     parse_props jfs acc h = (fs, h') \<Longrightarrow> rep_props h' fs (jacc @ jfs)"
  "wf_elems js \<Longrightarrow> parse_elems js h = (vs, h') \<Longrightarrow> rep_elems h' vs js"
proof (induction j h and jfs acc h and js h arbitrary: v h' and fs h' jacc and vs h'
    rule: parse_parse_props_parse_elems.induct)
  case (5 js h)
  obtain vs h1 where p: "parse_elems js h = (vs, h1)"
    by (cases "parse_elems js h")
  from "5.prems"(1) have "wf_elems js" by simp
  from "5.IH" [OF this p] have "rep_elems (h1 @ [Arr vs []]) vs js"
    by (rule rep_append(3))
  with "5.prems"(2) p show ?case by auto
next
  case (6 jfs h)
  obtain fs h1 where p: "parse_props jfs [] h = (fs, h1)"
    by (cases "parse_props jfs [] h")
  from "6.prems"(1) have wf: "wf_props jfs" and d: "distinct (map fst [] @ map fst jfs)"
    by simp_all
  have r: "rep_props h1 fs ([] @ jfs)"
    using "6.IH" [OF wf d _ p, of "[]"] by simp
  then have "map fst fs = map fst jfs"
    using rep_props_keys by fastforce
  with d have "distinct (map fst fs)" by simp
  moreover from r have "rep_props (h1 @ [Obj fs]) fs jfs"
    using rep_append(2) by fastforce
  ultimately show ?case
    using "6.prems"(2) p by auto
next
  case (8 k j jfs acc h)
  obtain v h1 where p: "parse j h = (v, h1)"
    by (cases "parse j h")
  from parse_extends(1) [OF p] obtain t where t: "h1 = h @ t" ..
  from "8.prems"(1) have wfj: "wf_json j" and wfs: "wf_props jfs"
    by simp_all
  from "8.prems"(2) have k: "k \<notin> set (map fst acc)"
    and d: "distinct (map fst (acc @ [(k, v)]) @ map fst jfs)"
    by auto
  have sf: "set_field acc k v = acc @ [(k, v)]"
    using k by (rule set_field_fresh)
  have rv: "rep h1 v j"
    using "8.IH"(1) [OF wfj p] .
  have "rep_props h1 acc jacc"
    unfolding t using "8.prems"(3) by (rule rep_append(2))
  then have racc: "rep_props h1 (acc @ [(k, v)]) (jacc @ [(k, j)])"
    using rv by (rule rep_props_snoc)
  from "8.prems"(4) p sf have q: "parse_props jfs (acc @ [(k, v)]) h1 = (fs, h')"
    by simp
  have "rep_props h' fs ((jacc @ [(k, j)]) @ jfs)"
    using "8.IH"(2) [OF p [symmetric] wfs _ _ _, of "jacc @ [(k, j)]" fs h'] d racc q sf
    by simp
  then show ?case by simp
next
  case (10 j js h)
  obtain v h1 where p: "parse j h = (v, h1)"
    by (cases "parse j h")
  obtain vs' h2 where q: "parse_elems js h1 = (vs', h2)"
    by (cases "parse_elems js h1")
  from parse_extends(3) [OF q] obtain t where t: "h2 = h1 @ t" ..
  from "10.prems"(1) have wfj: "wf_json j" and wfs: "wf_elems js"
    by simp_all
  have "rep h1 v j"
    using "10.IH"(1) [OF wfj p] .
  then have "rep h2 v j"
    unfolding t by (rule rep_append(1))
  moreover have "rep_elems h2 vs' js"
    using "10.IH"(2) [OF p [symmetric] wfs q] .
  ultimately show ?case
    using "10.prems"(2) p q by auto
qed auto

lemma rep_wf:
  "rep h v j \<Longrightarrow> wf_json j"
  "rep_props h fs jfs \<Longrightarrow> wf_props jfs"
  "rep_elems h vs js \<Longrightarrow> wf_elems js"
proof (induction h v j and h fs jfs and h vs js rule: rep_rep_props_rep_elems.induct)
  case (5 h v js)
  from "5.prems" obtain a xs where
    v: "v = VRef a" and a: "h ! a = Arr xs []" and xs: "rep_elems h xs js"
    by (rule rep_ArrD)
  from "5.IH" [OF v a xs] show ?case by simp
next
  case (6 h v jfs)
  from "6.prems" obtain a fs where
    v: "v = VRef a" and a: "h ! a = Obj fs" "distinct (map fst fs)"
    and fs: "rep_props h fs jfs"
    by (rule rep_ObjD)
  from "6.IH" [OF v a(1) fs] a(2) rep_props_keys [OF fs] show ?case by simp
next
  case (8 h fs k j jfs)
  from "8.prems" obtain v fs' where
    fs: "fs = (k, v) # fs'" and v: "rep h v j" and fs': "rep_props h fs' jfs"
    by (rule rep_props_ConsD)
  from "8.IH"(1) [OF fs refl v] "8.IH"(2) [OF fs refl fs'] show ?case by simp
next
  case (10 h vs j js)
  from "10.prems" obtain v vs' where
    vs: "vs = v # vs'" and v: "rep h v j" and vs': "rep_elems h vs' js"
    by (rule rep_elems_ConsD)
  from "10.IH"(1) [OF vs v] "10.IH"(2) [OF vs vs'] show ?case by simp
qed simp_all

subsection \<open>Runs of the encoder\<close>

lemmas run_defs = seq_def return_def throw_def logged_def or_throw_def read_prop_def
  write_prop_def allocate_def JSON_parse_def JSON_stringify_def JSON_clone_def
  randomBytes_def Buffer_from_hex_def ec_keyFromPublic_def encrypting_def encode_hex_def

lemma clone_BLACKMSG:
  assumes "templates_intact h"
  shows "clone h (VRef (Suc 0)) =
    Inr (VRef (length h),
         h @ [Obj [(''msghex'', VStr ''''), (''sighex'', VStr ''''), (''spkhex'', VStr '''')]])"
proof -
  have len: "1 < length h"
    using intact_length [OF assms] by simp
  have objs:
    "h ! Suc 0 = Obj [(''msghex'', VStr ''''), (''sighex'', VStr ''''), (''spkhex'', VStr '''')]"
    using intact_nth [OF assms, of 1] by (simp add: init_heap_def)
  have "stringify [] h (VRef (Suc 0)) =
      Inr (Some (JObj [(''msghex'', JStr ''''), (''sighex'', JStr ''''),
                       (''spkhex'', JStr '''')]))"
    using len by (simp add: objs)
  then show ?thesis
    by (simp add: clone_def)
qed

lemma redToBlack_run:
  assumes intact: "templates_intact (mem w)"
    and ser: "stringify [] (mem w) redobj = Inr (Some j)"
    and enc: "ecies_encrypt L (\<lambda>i. entropy w (drawn w + i)) rxpubkeyhex (buffer_from_text L j)
                = (Some msg, n)"
    and key: "keyFromPrivate L txprivkeyhex = Some privkey"
    and point: "getPublic L privkey = Some P"
  shows "redToBlack L txprivkeyhex rxpubkeyhex redobj w =
    (Inr (VRef (length (mem w))),
     w\<lparr>mem := mem w @
            [Obj [(''msghex'', VStr (toString_hex msg)),
                  (''sighex'', VStr (toString_hex (toDER L (sign L privkey (sha256 L msg))))),
                  (''spkhex'', VStr (toString_hex (encode P True)))]],
       drawn := drawn w + n,
       calls := calls w @
            [Encrypt rxpubkeyhex (buffer_from_text L j), Hash msg,
             KeyFromPrivate txprivkeyhex, Sign (sha256 L msg)]\<rparr>)"
  by (simp add: redToBlack_def run_defs ser enc key point intact_exports [OF intact]
      clone_BLACKMSG [OF intact] nth_append)

lemma redToBlack_no_point:
  assumes ser: "stringify [] (mem w) redobj = Inr (Some j)"
    and enc: "ecies_encrypt L (\<lambda>i. entropy w (drawn w + i)) rxpubkeyhex (buffer_from_text L j)
                = (Some msg, n)"
    and key: "keyFromPrivate L txprivkeyhex = Some privkey"
    and point: "getPublic L privkey = None"
  shows "redToBlack L txprivkeyhex rxpubkeyhex redobj w =
    (Inl TypeError,
     w\<lparr>drawn := drawn w + n,
       calls := calls w @
            [Encrypt rxpubkeyhex (buffer_from_text L j), Hash msg,
             KeyFromPrivate txprivkeyhex, Sign (sha256 L msg)]\<rparr>)"
  by (simp add: redToBlack_def run_defs ser enc key point)

lemma redToBlack_returnsD:
  assumes "redToBlack L txprivkeyhex rxpubkeyhex redobj w = (Inr r, w')"
  obtains j msg n privkey P where
    "stringify [] (mem w) redobj = Inr (Some j)"
    "ecies_encrypt L (\<lambda>i. entropy w (drawn w + i)) rxpubkeyhex (buffer_from_text L j)
       = (Some msg, n)"
    "keyFromPrivate L txprivkeyhex = Some privkey"
    "getPublic L privkey = Some P"
proof -
  obtain j where ser: "stringify [] (mem w) redobj = Inr (Some j)"
    using assms
    by (cases "stringify [] (mem w) redobj")
      (auto simp: redToBlack_def run_defs split: option.splits)
  obtain c n where enc:
    "ecies_encrypt L (\<lambda>i. entropy w (drawn w + i)) rxpubkeyhex (buffer_from_text L j) = (c, n)"
    by (cases "ecies_encrypt L (\<lambda>i. entropy w (drawn w + i)) rxpubkeyhex (buffer_from_text L j)")
  obtain msg where c: "c = Some msg"
    using assms ser enc by (cases c) (auto simp: redToBlack_def run_defs)
  obtain privkey where key: "keyFromPrivate L txprivkeyhex = Some privkey"
    using assms ser enc c
    by (cases "keyFromPrivate L txprivkeyhex") (auto simp: redToBlack_def run_defs)
  obtain P where point: "getPublic L privkey = Some P"
    using assms redToBlack_no_point [OF ser enc [unfolded c] key]
    by (cases "getPublic L privkey") auto
  from ser enc c key point that show thesis
    by blast
qed

subsection \<open>The stand-in libraries on the example request\<close>


lemma length_init_heap: "length init_heap = 10"
  by (simp add: init_heap_def)

lemma world1_intact: "templates_intact (mem world1)"
  by (simp add: world1_def world0_def intact_append intact_init)

lemma world1_request: "stringify [] (mem world1) (VRef 10) = Inr (Some request_x)"
  by (simp add: world1_def world0_def nth_append length_init_heap request_x_def)

lemma stub_keys:
  "be_nat (from_hex skA) = 7"
  "be_nat (from_hex skB) = 9"
  "decodePoint (from_hex pkB) = Some 9"
  by (simp_all add: skA_def skB_def pkB_def unhex_def be_nat_def decodePoint_def)

lemma stub_encrypt:
  "ecies_encrypt stub (\<lambda>i. entropy world1 (drawn world1 + i)) pkB (buffer_from_text stub request_x)
     = (Some (171 # be32 9 @ request_x_text), 1)"
  by (simp add: stub_def stub_keys world1_def world0_def)

lemma stub_keyFromPrivate: "keyFromPrivate stub skA = Some 7"
  by (simp add: stub_def stub_keys)

lemma stub_point: "getPublic stub 7 = Some (7, 7)"
  by (simp add: stub_def)


lemma field_last: "field (h @ [Obj fs]) (VRef (length h)) k = lookup fs k"
  by (simp add: field_def)

text \<open>
  C3. When \<^verbatim>\<open>redToBlack\<close> returns an envelope, the message was serialized to a text
  \<open>j\<close>, the bytes of \<open>j\<close> were encrypted to a ciphertext \<open>msg\<close>, \<^verbatim>\<open>msghex\<close> is the hex
  string of \<open>msg\<close>, and \<^verbatim>\<open>sighex\<close> is the hex string of the DER encoding of the
  signature, under the sender's private key, of the SHA-256 hash of \<open>msg\<close>. The only
  bytes hashed and the only hash signed during the call are the ciphertext and its hash:
  the plaintext is never hashed. The call does return when serialization, encryption and
  the import of the private key succeed and the private key has a public point. When
  these succeed and the key has none (it is 0 modulo the group order), the same hash is
  signed and the call then fails with a \<^verbatim>\<open>TypeError\<close>, returning no envelope.
\<close>

theorem redToBlack_signs_hash_of_ciphertext:
  assumes "templates_intact (mem w)"
  shows "(redToBlack L txprivkeyhex rxpubkeyhex redobj w = (Inr r, w') \<longrightarrow>
          (\<exists>j msg n privkey.
             stringify [] (mem w) redobj = Inr (Some j) \<and>
             ecies_encrypt L (\<lambda>i. entropy w (drawn w + i)) rxpubkeyhex (buffer_from_text L j)
               = (Some msg, n) \<and>
             keyFromPrivate L txprivkeyhex = Some privkey \<and>
             field (mem w') r ''msghex'' = VStr (toString_hex msg) \<and>
             field (mem w') r ''sighex'' =
               VStr (toString_hex (toDER L (sign L privkey (sha256 L msg)))) \<and>
             calls w' = calls w @
               [Encrypt rxpubkeyhex (buffer_from_text L j), Hash msg,
                KeyFromPrivate txprivkeyhex, Sign (sha256 L msg)]))
       \<and> (stringify [] (mem w) redobj = Inr (Some j') \<and>
            ecies_encrypt L (\<lambda>i. entropy w (drawn w + i)) rxpubkeyhex (buffer_from_text L j')
              = (Some msg', n') \<and>
            keyFromPrivate L txprivkeyhex = Some privkey' \<and>
            getPublic L privkey' = Some P' \<longrightarrow>
          (\<exists>r w'. redToBlack L txprivkeyhex rxpubkeyhex redobj w = (Inr r, w')))
       \<and> (stringify [] (mem w) redobj = Inr (Some j') \<and>
            ecies_encrypt L (\<lambda>i. entropy w (drawn w + i)) rxpubkeyhex (buffer_from_text L j')
              = (Some msg', n') \<and>
            keyFromPrivate L txprivkeyhex = Some privkey' \<and>
            getPublic L privkey' = None \<longrightarrow>
          fst (redToBlack L txprivkeyhex rxpubkeyhex redobj w) = Inl TypeError \<and>
          calls (snd (redToBlack L txprivkeyhex rxpubkeyhex redobj w)) = calls w @
            [Encrypt rxpubkeyhex (buffer_from_text L j'), Hash msg',
             KeyFromPrivate txprivkeyhex, Sign (sha256 L msg')])"
proof (intro conjI impI)
  assume ret: "redToBlack L txprivkeyhex rxpubkeyhex redobj w = (Inr r, w')"
  then obtain j msg n privkey P where
    ser: "stringify [] (mem w) redobj = Inr (Some j)" and
    enc: "ecies_encrypt L (\<lambda>i. entropy w (drawn w + i)) rxpubkeyhex (buffer_from_text L j)
            = (Some msg, n)" and
    key: "keyFromPrivate L txprivkeyhex = Some privkey" and
    point: "getPublic L privkey = Some P"
    by (rule redToBlack_returnsD)
  from ret redToBlack_run [OF assms ser enc key point]
  have r: "r = VRef (length (mem w))"
    and w': "w' = w\<lparr>mem := mem w @
            [Obj [(''msghex'', VStr (toString_hex msg)),
                  (''sighex'', VStr (toString_hex (toDER L (sign L privkey (sha256 L msg))))),
                  (''spkhex'', VStr (toString_hex (encode P True)))]],
       drawn := drawn w + n,
       calls := calls w @
            [Encrypt rxpubkeyhex (buffer_from_text L j), Hash msg,
             KeyFromPrivate txprivkeyhex, Sign (sha256 L msg)]\<rparr>"
    by simp_all
  have "field (mem w') r ''msghex'' = VStr (toString_hex msg)"
    and "field (mem w') r ''sighex'' =
         VStr (toString_hex (toDER L (sign L privkey (sha256 L msg))))"
    and "calls w' = calls w @
           [Encrypt rxpubkeyhex (buffer_from_text L j), Hash msg,
            KeyFromPrivate txprivkeyhex, Sign (sha256 L msg)]"
    unfolding r w' by (simp_all add: field_last)
  with ser enc key
  show "\<exists>j msg n privkey.
             stringify [] (mem w) redobj = Inr (Some j) \<and>
             ecies_encrypt L (\<lambda>i. entropy w (drawn w + i)) rxpubkeyhex (buffer_from_text L j)
               = (Some msg, n) \<and>
             keyFromPrivate L txprivkeyhex = Some privkey \<and>
             field (mem w') r ''msghex'' = VStr (toString_hex msg) \<and>
             field (mem w') r ''sighex'' =
               VStr (toString_hex (toDER L (sign L privkey (sha256 L msg)))) \<and>
             calls w' = calls w @
               [Encrypt rxpubkeyhex (buffer_from_text L j), Hash msg,
                KeyFromPrivate txprivkeyhex, Sign (sha256 L msg)]"
    by blast
next
  assume "stringify [] (mem w) redobj = Inr (Some j') \<and>
            ecies_encrypt L (\<lambda>i. entropy w (drawn w + i)) rxpubkeyhex (buffer_from_text L j')
              = (Some msg', n') \<and>
            keyFromPrivate L txprivkeyhex = Some privkey' \<and>
            getPublic L privkey' = Some P'"
  then show "\<exists>r w'. redToBlack L txprivkeyhex rxpubkeyhex redobj w = (Inr r, w')"
    using redToBlack_run [OF assms, of redobj j' L rxpubkeyhex msg' n' txprivkeyhex privkey' P']
    by blast
next
  assume a: "stringify [] (mem w) redobj = Inr (Some j') \<and>
            ecies_encrypt L (\<lambda>i. entropy w (drawn w + i)) rxpubkeyhex (buffer_from_text L j')
              = (Some msg', n') \<and>
            keyFromPrivate L txprivkeyhex = Some privkey' \<and>
            getPublic L privkey' = None"
  note run = redToBlack_no_point [OF a [THEN conjunct1] a [THEN conjunct2, THEN conjunct1]
      a [THEN conjunct2, THEN conjunct2, THEN conjunct1]
      a [THEN conjunct2, THEN conjunct2, THEN conjunct2]]
  show "fst (redToBlack L txprivkeyhex rxpubkeyhex redobj w) = Inl TypeError"
    by (simp add: run)
  show "calls (snd (redToBlack L txprivkeyhex rxpubkeyhex redobj w)) = calls w @
            [Encrypt rxpubkeyhex (buffer_from_text L j'), Hash msg',
             KeyFromPrivate txprivkeyhex, Sign (sha256 L msg')]"
    by (simp add: run)
qed

theorem redToBlack_signs_hash_of_ciphertext_witness:
  "templates_intact (mem world1)
   \<and> fst (redToBlack stub skA pkB (VRef 10) world1) = Inr (VRef 11)
   \<and> field (mem (snd (redToBlack stub skA pkB (VRef 10) world1))) (VRef 11) ''msghex'' =
       VStr (toString_hex (171 # be32 9 @ request_x_text))
   \<and> field (mem (snd (redToBlack stub skA pkB (VRef 10) world1))) (VRef 11) ''sighex'' =
       VStr (toString_hex (toDER stub (sign stub 7 (sha256 stub (171 # be32 9 @ request_x_text)))))
   \<and> keyFromPrivate stub skZ = Some 0
   \<and> getPublic stub 0 = None
   \<and> fst (redToBlack stub skZ pkB (VRef 10) world1) = Inl TypeError"
proof -
  obtain r w' where run: "redToBlack stub skA pkB (VRef 10) world1 = (Inr r, w')"
    using redToBlack_signs_hash_of_ciphertext [OF world1_intact, of stub skA pkB "VRef 10"
        _ _ request_x "171 # be32 9 @ request_x_text" 1 7 "(7, 7)"]
      world1_request stub_encrypt stub_keyFromPrivate stub_point
    by blast
  from redToBlack_signs_hash_of_ciphertext [OF world1_intact, of stub skA pkB "VRef 10" r w']
    run world1_request stub_encrypt stub_keyFromPrivate
  have "field (mem w') r ''msghex'' = VStr (toString_hex (171 # be32 9 @ request_x_text))"
    and "field (mem w') r ''sighex'' =
       VStr (toString_hex (toDER stub (sign stub 7 (sha256 stub (171 # be32 9 @ request_x_text)))))"
    by auto
  moreover have "r = VRef 11"
    using run redToBlack_run [OF world1_intact world1_request stub_encrypt stub_keyFromPrivate
        stub_point]
    by (simp add: world1_def world0_def length_init_heap)
  moreover have zero: "keyFromPrivate stub skZ = Some 0" "getPublic stub 0 = None"
    by (simp_all add: stub_def skZ_def unhex_def be_nat_def)
  moreover have "fst (redToBlack stub skZ pkB (VRef 10) world1) = Inl TypeError"
    using redToBlack_signs_hash_of_ciphertext [OF world1_intact, of stub skZ pkB "VRef 10"
        _ _ request_x "171 # be32 9 @ request_x_text" 1 0]
      world1_request stub_encrypt zero
    by blast
  ultimately show ?thesis
    using run world1_intact by simp
qed


text \<open>
  C10. With the module's templates as loaded, every object that \<^verbatim>\<open>redToBlack\<close>
  returns is one on which \<^verbatim>\<open>isBlackMsg\<close> is true: its \<^verbatim>\<open>msghex\<close>,
  \<^verbatim>\<open>sighex\<close> and \<^verbatim>\<open>spkhex\<close> are strings, each the hex coding of a buffer. And
  \<^verbatim>\<open>redToBlack\<close> does return such an object for a message that \<^verbatim>\<open>JSON.stringify\<close>
  serializes, a recipient key that \<^verbatim>\<open>ecies.encrypt\<close> accepts and a sender key that
  is valid: \<^verbatim>\<open>ec.keyFromPrivate\<close> accepts it and it has a public point (it is not 0
  modulo the group order).
\<close>

theorem redToBlack_output_isBlackMsg:
  assumes "templates_intact (mem w)"
  shows "(redToBlack L txprivkeyhex rxpubkeyhex redobj w = (Inr r, w') \<longrightarrow>
           isBlackMsg (mem w') r = Inr True \<and>
           (\<exists>m s p. field (mem w') r ''msghex'' = VStr (toString_hex m) \<and>
                    field (mem w') r ''sighex'' = VStr (toString_hex s) \<and>
                    field (mem w') r ''spkhex'' = VStr (toString_hex p)))
       \<and> (stringify [] (mem w) redobj = Inr (Some j) \<and>
          ecies_encrypt L (\<lambda>i. entropy w (drawn w + i)) rxpubkeyhex (buffer_from_text L j)
            = (Some msg, n) \<and>
          keyFromPrivate L txprivkeyhex = Some privkey \<and>
          getPublic L privkey = Some P \<longrightarrow>
           (\<exists>r w'. redToBlack L txprivkeyhex rxpubkeyhex redobj w = (Inr r, w') \<and>
              isBlackMsg (mem w') r = Inr True))"
proof -
  have general: "redToBlack L txprivkeyhex rxpubkeyhex redobj w =
        (Inr (VRef (length (mem w))),
         w\<lparr>mem := mem w @
            [Obj [(''msghex'', VStr (toString_hex msg)),
                  (''sighex'', VStr (toString_hex (toDER L (sign L privkey (sha256 L msg))))),
                  (''spkhex'', VStr (toString_hex (encode P True)))]],
           drawn := drawn w + n,
           calls := calls w @
            [Encrypt rxpubkeyhex (buffer_from_text L j), Hash msg,
             KeyFromPrivate txprivkeyhex, Sign (sha256 L msg)]\<rparr>)
      \<and> isBlackMsg (mem w @
            [Obj [(''msghex'', VStr (toString_hex msg)),
                  (''sighex'', VStr (toString_hex (toDER L (sign L privkey (sha256 L msg))))),
                  (''spkhex'', VStr (toString_hex (encode P True)))]])
          (VRef (length (mem w))) = Inr True"
    if "stringify [] (mem w) redobj = Inr (Some j)"
      and "ecies_encrypt L (\<lambda>i. entropy w (drawn w + i)) rxpubkeyhex (buffer_from_text L j)
            = (Some msg, n)"
      and "keyFromPrivate L txprivkeyhex = Some privkey"
      and "getPublic L privkey = Some P"
    for j msg n privkey P
    using redToBlack_run [OF assms that]
    by (simp add: isBlackMsg_eq_spec isBlackMsg_spec_def field_last)
  show ?thesis
  proof (intro conjI impI)
    assume ret: "redToBlack L txprivkeyhex rxpubkeyhex redobj w = (Inr r, w')"
    then obtain j msg n privkey P where
      ser: "stringify [] (mem w) redobj = Inr (Some j)" and
      enc: "ecies_encrypt L (\<lambda>i. entropy w (drawn w + i)) rxpubkeyhex (buffer_from_text L j)
              = (Some msg, n)" and
      key: "keyFromPrivate L txprivkeyhex = Some privkey" and
      point: "getPublic L privkey = Some P"
      by (rule redToBlack_returnsD)
    let ?env = "Obj [(''msghex'', VStr (toString_hex msg)),
                  (''sighex'', VStr (toString_hex (toDER L (sign L privkey (sha256 L msg))))),
                  (''spkhex'', VStr (toString_hex (encode P True)))]"
    from ret general [OF ser enc key point]
    have r: "r = VRef (length (mem w))" and w': "mem w' = mem w @ [?env]"
      and ok: "isBlackMsg (mem w @ [?env]) (VRef (length (mem w))) = Inr True"
      by auto
    show "isBlackMsg (mem w') r = Inr True"
      unfolding r w' by (rule ok)
    have "field (mem w') r ''msghex'' = VStr (toString_hex msg)"
      and "field (mem w') r ''sighex'' =
        VStr (toString_hex (toDER L (sign L privkey (sha256 L msg))))"
      and "field (mem w') r ''spkhex'' = VStr (toString_hex (encode P True))"
      unfolding r w' by (simp_all add: field_last)
    then show "\<exists>m s p. field (mem w') r ''msghex'' = VStr (toString_hex m) \<and>
                    field (mem w') r ''sighex'' = VStr (toString_hex s) \<and>
                    field (mem w') r ''spkhex'' = VStr (toString_hex p)"
      by blast
  next
    assume a: "stringify [] (mem w) redobj = Inr (Some j) \<and>
          ecies_encrypt L (\<lambda>i. entropy w (drawn w + i)) rxpubkeyhex (buffer_from_text L j)
            = (Some msg, n) \<and>
          keyFromPrivate L txprivkeyhex = Some privkey \<and>
          getPublic L privkey = Some P"
    from general [of j msg n privkey P] a
    show "\<exists>r w'. redToBlack L txprivkeyhex rxpubkeyhex redobj w = (Inr r, w') \<and>
              isBlackMsg (mem w') r = Inr True"
      by simp
  qed
qed

theorem redToBlack_output_isBlackMsg_witness:
  "templates_intact (mem world1)
   \<and> stringify [] (mem world1) (VRef 10) = Inr (Some request_x)
   \<and> keyFromPrivate stub skA = Some 7
   \<and> getPublic stub 7 = Some (7, 7)
   \<and> (\<exists>r w'. redToBlack stub skA pkB (VRef 10) world1 = (Inr r, w') \<and>
           isBlackMsg (mem w') r = Inr True)"
  using redToBlack_output_isBlackMsg [OF world1_intact, of stub skA pkB "VRef 10" _ _
      request_x "171 # be32 9 @ request_x_text" 1 7 "(7, 7)"]
    world1_intact world1_request stub_encrypt stub_keyFromPrivate stub_point
  by blast

subsection \<open>Runs of the decoder\<close>


lemma Buffer_from_hex_world: "snd (Buffer_from_hex L v w) = w"
  by (simp add: Buffer_from_hex_def split: val.splits option.splits)

lemma ec_keyFromPublic_world: "snd (ec_keyFromPublic L v w) = w"
  by (simp add: ec_keyFromPublic_def or_throw_def throw_def return_def
      split: val.splits option.splits)

lemma ec_keyFromPublic_calls:
  "fst (ec_keyFromPublic L v (w\<lparr>calls := c\<rparr>)) = fst (ec_keyFromPublic L v w)"
  by (simp add: ec_keyFromPublic_def or_throw_def throw_def return_def
      split: val.splits option.splits)

lemma ec_keyFromPublic_error:
  "fst (ec_keyFromPublic L v w) = Inl e \<Longrightarrow> e = KeyFormatError"
  by (auto simp: ec_keyFromPublic_def or_throw_def throw_def return_def
      split: val.splits option.splits)

lemma blackToRed_decoded:
  assumes "get_prop (mem w) b ''msghex'' = Inr mh"
    and "fst (Buffer_from_hex L mh w) = Inr msg"
    and "get_prop (mem w) b ''sighex'' = Inr sh"
    and "fst (Buffer_from_hex L sh w) = Inr sig"
    and "get_prop (mem w) b ''spkhex'' = Inr spk"
  shows "blackToRed L sk b w =
    (case fst (ec_keyFromPublic L spk w) of
       Inl e \<Rightarrow> (Inl KeyFormatError, w\<lparr>calls := calls w @ [Hash msg, KeyFromPublic spk]\<rparr>)
     | Inr pk \<Rightarrow>
         (case verify L pk (sha256 L msg) sig of
            None \<Rightarrow>
              (Inl VerifyError,
               w\<lparr>calls := calls w @
                  [Hash msg, KeyFromPublic spk, Verify (sha256 L msg) sig None]\<rparr>)
          | Some ok \<Rightarrow>
              if \<not> ok then
                (Inl SignatureVerificationFailure,
                 w\<lparr>calls := calls w @
                    [Hash msg, KeyFromPublic spk, Verify (sha256 L msg) sig (Some False)]\<rparr>)
              else
                after_verify L sk msg
                  (w\<lparr>calls := calls w @
                     [Hash msg, KeyFromPublic spk, Verify (sha256 L msg) sig (Some True)]\<rparr>)))"
proof -
  have m: "Buffer_from_hex L mh w = (Inr msg, w)"
    using assms(2) Buffer_from_hex_world [of L mh w] by (cases "Buffer_from_hex L mh w") simp
  have s: "Buffer_from_hex L sh w = (Inr sig, w)"
    using assms(4) Buffer_from_hex_world [of L sh w] by (cases "Buffer_from_hex L sh w") simp
  let ?w2 = "w\<lparr>calls := calls w @ [Hash msg, KeyFromPublic spk]\<rparr>"
  have k: "ec_keyFromPublic L spk ?w2 = (fst (ec_keyFromPublic L spk w), ?w2)"
    using ec_keyFromPublic_world [of L spk ?w2]
      ec_keyFromPublic_calls [where L = L and v = spk and w = w
        and c = "calls w @ [Hash msg, KeyFromPublic spk]"]
    by (cases "ec_keyFromPublic L spk ?w2") simp
  show ?thesis
    using ec_keyFromPublic_error [of L spk w]
    by (simp add: blackToRed_def seq_def read_prop_def logged_def or_throw_def throw_def
        return_def JSON_parse_def after_verify_def assms m s k
        split: sum.splits option.splits prod.splits)
qed


lemma get_prop_ok: "get_prop h b k = Inr v \<Longrightarrow> \<exists>v'. get_prop h b k' = Inr v'"
  by (cases b) (auto split: if_splits obj.splits)

lemma blackToRed_undecoded:
  "get_prop (mem w) b ''msghex'' = Inl e \<Longrightarrow> blackToRed L sk b w = (Inl e, w)"
  "get_prop (mem w) b ''msghex'' = Inr mh \<Longrightarrow> fst (Buffer_from_hex L mh w) = Inl e \<Longrightarrow>
     blackToRed L sk b w = (Inl e, w)"
  "get_prop (mem w) b ''msghex'' = Inr mh \<Longrightarrow> fst (Buffer_from_hex L mh w) = Inr msg \<Longrightarrow>
     get_prop (mem w) b ''sighex'' = Inr sh \<Longrightarrow> fst (Buffer_from_hex L sh w) = Inl e \<Longrightarrow>
     blackToRed L sk b w = (Inl e, w)"
proof -
  show "blackToRed L sk b w = (Inl e, w)" if "get_prop (mem w) b ''msghex'' = Inl e"
    using that by (simp add: blackToRed_def seq_def read_prop_def)
  show "blackToRed L sk b w = (Inl e, w)"
    if "get_prop (mem w) b ''msghex'' = Inr mh" "fst (Buffer_from_hex L mh w) = Inl e"
  proof -
    have "Buffer_from_hex L mh w = (Inl e, w)"
      using that(2) Buffer_from_hex_world [of L mh w] by (cases "Buffer_from_hex L mh w") simp
    with that(1) show ?thesis
      by (simp add: blackToRed_def seq_def read_prop_def)
  qed
  show "blackToRed L sk b w = (Inl e, w)"
    if "get_prop (mem w) b ''msghex'' = Inr mh" "fst (Buffer_from_hex L mh w) = Inr msg"
      "get_prop (mem w) b ''sighex'' = Inr sh" "fst (Buffer_from_hex L sh w) = Inl e"
  proof -
    have "Buffer_from_hex L mh w = (Inr msg, w)"
      using that(2) Buffer_from_hex_world [of L mh w] by (cases "Buffer_from_hex L mh w") simp
    moreover have "Buffer_from_hex L sh w = (Inl e, w)"
      using that(4) Buffer_from_hex_world [of L sh w] by (cases "Buffer_from_hex L sh w") simp
    ultimately show ?thesis
      using that(1,3) by (simp add: blackToRed_def seq_def read_prop_def)
  qed
qed

lemma after_verify_calls:
  "calls (snd (after_verify L sk msg w)) = calls w @ [Decrypt sk msg]"
  by (simp add: after_verify_def split: option.splits)



lemma Buffer_from_hex_str: "fst (Buffer_from_hex L (VStr s) w) = Inr (from_hex s)"
  by (simp add: Buffer_from_hex_def)

lemma ec_keyFromPublic_str:
  "fst (ec_keyFromPublic L (VStr s) w) =
     (case keyFromPublic L s of None \<Rightarrow> Inl KeyFormatError | Some k \<Rightarrow> Inr k)"
  by (simp add: ec_keyFromPublic_def or_throw_def throw_def return_def split: option.splits)

lemma received_fields:
  "get_prop (mem (received mh sh ph)) (VRef 10) ''msghex'' = Inr (VStr mh)"
  "get_prop (mem (received mh sh ph)) (VRef 10) ''sighex'' = Inr (VStr sh)"
  "get_prop (mem (received mh sh ph)) (VRef 10) ''spkhex'' = Inr (VStr ph)"
  by (simp_all add: received_def world0_def nth_append length_init_heap)

lemma be_nat_be32_small:
  "be_nat (be32 7) = 7"
  "be_nat (be32 9) = 9"
  by (simp_all add: be32_def be_nat_def upt_rec)

lemma stub_import: "keyFromPublic stub spkA = Some 7"
proof -
  have "keyFromPublic stub spkA = decodePoint (encode (7, 7) True)"
    by (simp add: stub_def spkA_def from_hex_toString_hex)
  then show ?thesis
    by (simp add: encode_def decodePoint_def length_be32 be_nat_be32_small)
qed

lemma stub_decrypt: "ecies_decrypt stub skB (e # be32 9 @ x) = Some x"
  by (simp add: stub_def stub_keys length_be32)

lemma stub_run:
  assumes "verify stub 7 (from_hex mh) (from_hex sh) = r"
  shows "blackToRed stub sk (VRef 10) (received mh sh spkA) =
     (if r = Some True then
        after_verify stub sk (from_hex mh)
          ((received mh sh spkA)\<lparr>calls :=
             [Hash (from_hex mh), KeyFromPublic (VStr spkA),
              Verify (from_hex mh) (from_hex sh) (Some True)]\<rparr>)
      else
        (Inl (if r = None then VerifyError else SignatureVerificationFailure),
         (received mh sh spkA)\<lparr>calls :=
            [Hash (from_hex mh), KeyFromPublic (VStr spkA),
             Verify (from_hex mh) (from_hex sh) r]\<rparr>))"
proof -
  have c: "calls (received mh sh spkA) = []"
    and h: "sha256 stub = (\<lambda>b. b)"
    by (simp_all add: received_def world0_def stub_def)
  have k: "fst (ec_keyFromPublic stub (VStr spkA) (received mh sh spkA)) = Inr 7"
    by (simp add: ec_keyFromPublic_str stub_import)
  show ?thesis
    using assms
    by (cases r)
      (auto simp: blackToRed_decoded [OF received_fields(1) [of mh sh spkA] Buffer_from_hex_str
        received_fields(2) [of mh sh spkA] Buffer_from_hex_str
        received_fields(3) [of mh sh spkA], of stub sk] k c h)
qed



lemma after_verify_stub:
  "after_verify stub skB msg_x w =
     (Inr (VRef (length (mem w))),
      w\<lparr>calls := calls w @ [Decrypt skB msg_x],
        mem := mem w @
          [Obj [(''jsonrpc'', VStr ''2.0''), (''method'', VStr ''x''), (''id'', VNum 1)]]\<rparr>)"
proof -
  have "ecies_decrypt stub skB msg_x = Some request_x_text"
    unfolding msg_x_def by (rule stub_decrypt)
  moreover have "text_from_buffer stub request_x_text = Some request_x"
    by (simp add: stub_def)
  moreover have "parse request_x h =
      (VRef (length h),
       h @ [Obj [(''jsonrpc'', VStr ''2.0''), (''method'', VStr ''x''), (''id'', VNum 1)]])" for h
    by (simp add: request_x_def)
  ultimately show ?thesis
    by (simp add: after_verify_def)
qed

lemma after_verify_stub_empty:
  "fst (after_verify stub skB [] w) = Inl DecryptionFailure"
  by (simp add: after_verify_def stub_def)

lemma flipped_case:
  "toString_hex msg_x ! 0 = CHR ''a''"
  "from_hex ((toString_hex msg_x)[0 := CHR ''A'']) = msg_x"
proof -
  have hex: "toString_hex msg_x = CHR ''a'' # CHR ''b'' # toString_hex (be32 9 @ request_x_text)"
    by (simp add: msg_x_def hexdigit_def)
  show "toString_hex msg_x ! 0 = CHR ''a''"
    by (simp add: hex)
  have "from_hex (CHR ''A'' # CHR ''b'' # toString_hex (be32 9 @ request_x_text)) =
      171 # from_hex (toString_hex (be32 9 @ request_x_text))"
    by (simp add: unhex_def)
  then show "from_hex ((toString_hex msg_x)[0 := CHR ''A'']) = msg_x"
    by (simp add: hex from_hex_toString_hex msg_x_def unhex_def hexdigit_def)
qed



lemma after_verify_result:
  "fst (after_verify L sk msg w) = Inl DecryptionFailure
   \<or> fst (after_verify L sk msg w) = Inl DeserializationError
   \<or> (\<exists>red j. ecies_decrypt L sk msg = Some red \<and> text_from_buffer L red = Some j \<and>
         fst (after_verify L sk msg w) = Inr (fst (parse j (mem w))))"
  by (simp add: after_verify_def split: option.splits)

lemma after_verify_not_malformed:
  "fst (after_verify L sk msg w) \<noteq> Inl MalformedEnvelope"
  by (simp add: after_verify_def split: option.splits)

lemma Buffer_from_hex_refused:
  "refused v \<Longrightarrow> fst (Buffer_from_hex L v w) = Inl MalformedEnvelope"
  by (cases v) (simp_all add: Buffer_from_hex_def)

lemma blackToRed_strings:
  assumes mh: "get_prop (mem w) b ''msghex'' = Inr (VStr mh)"
    and sh: "get_prop (mem w) b ''sighex'' = Inr (VStr sh)"
    and spk: "get_prop (mem w) b ''spkhex'' = Inr spk"
  shows "blackToRed L sk b w =
    (case fst (ec_keyFromPublic L spk w) of
       Inl e \<Rightarrow>
         (Inl KeyFormatError, w\<lparr>calls := calls w @ [Hash (from_hex mh), KeyFromPublic spk]\<rparr>)
     | Inr pk \<Rightarrow>
         (case verify L pk (sha256 L (from_hex mh)) (from_hex sh) of
            None \<Rightarrow>
              (Inl VerifyError,
               w\<lparr>calls := calls w @
                  [Hash (from_hex mh), KeyFromPublic spk,
                   Verify (sha256 L (from_hex mh)) (from_hex sh) None]\<rparr>)
          | Some ok \<Rightarrow>
              if \<not> ok then
                (Inl SignatureVerificationFailure,
                 w\<lparr>calls := calls w @
                    [Hash (from_hex mh), KeyFromPublic spk,
                     Verify (sha256 L (from_hex mh)) (from_hex sh) (Some False)]\<rparr>)
              else
                after_verify L sk (from_hex mh)
                  (w\<lparr>calls := calls w @
                     [Hash (from_hex mh), KeyFromPublic spk,
                      Verify (sha256 L (from_hex mh)) (from_hex sh) (Some True)]\<rparr>)))"
  by (rule blackToRed_decoded [OF mh Buffer_from_hex_str sh Buffer_from_hex_str spk])

text \<open>
  C5 as stated fails: an envelope whose \<^verbatim>\<open>msghex\<close> is \<^verbatim>\<open>"zz"\<close>, or empty, and whose
  \<^verbatim>\<open>sighex\<close> is the sender's signature of the hash of no bytes passes the hex
  decoding, the hashing and the verification, and fails in the decryption; with an empty
  \<^verbatim>\<open>sighex\<close> it fails inside the verification.
\<close>

theorem invalid_hex_is_not_refused:
  "fst (blackToRed stub skB (VRef 10) (received ''zz'' (toString_hex (48 # be32 7)) spkA))
     = Inl DecryptionFailure
   \<and> calls (snd (blackToRed stub skB (VRef 10)
        (received ''zz'' (toString_hex (48 # be32 7)) spkA)))
     = [Hash [], KeyFromPublic (VStr spkA), Verify [] (48 # be32 7) (Some True),
        Decrypt skB []]
   \<and> fst (blackToRed stub skB (VRef 10) (received [] (toString_hex (48 # be32 7)) spkA))
     = Inl DecryptionFailure
   \<and> fst (blackToRed stub skB (VRef 10) (received [] [] spkA)) = Inl VerifyError"
proof -
  have zz: "verify stub 7 (from_hex ''zz'') (from_hex (toString_hex (48 # be32 7))) = Some True"
    unfolding from_hex_toString_hex by (simp add: unhex_def stub_def)
  have empty: "verify stub 7 (from_hex []) (from_hex (toString_hex (48 # be32 7))) = Some True"
    unfolding from_hex_toString_hex by (simp add: stub_def)
  have thrown: "verify stub 7 (from_hex []) (from_hex []) = None"
    by (simp add: stub_def)
  have "fst (blackToRed stub skB (VRef 10) (received ''zz'' (toString_hex (48 # be32 7)) spkA))
      = Inl DecryptionFailure"
    unfolding stub_run [OF zz, of skB] by (simp add: unhex_def after_verify_stub_empty)
  moreover
  have "calls (snd (blackToRed stub skB (VRef 10)
        (received ''zz'' (toString_hex (48 # be32 7)) spkA)))
     = [Hash [], KeyFromPublic (VStr spkA), Verify [] (48 # be32 7) (Some True),
        Decrypt skB []]"
    unfolding stub_run [OF zz, of skB] from_hex_toString_hex
    by (simp add: unhex_def after_verify_calls)
  moreover
  have "fst (blackToRed stub skB (VRef 10) (received [] (toString_hex (48 # be32 7)) spkA))
      = Inl DecryptionFailure"
    unfolding stub_run [OF empty, of skB] by (simp add: after_verify_stub_empty)
  moreover
  have "fst (blackToRed stub skB (VRef 10) (received [] [] spkA)) = Inl VerifyError"
    unfolding stub_run [OF thrown, of skB] by simp
  ultimately show ?thesis
    by blast
qed

lemma Buffer_from_hex_rejected:
  "fst (Buffer_from_hex L v w) = Inl e \<longleftrightarrow> e = MalformedEnvelope \<and> rejected L (mem w) v"
  by (cases v) (auto simp: Buffer_from_hex_def split: option.splits)

lemma get_prop_error: "get_prop h b k = Inl e \<Longrightarrow> e = TypeError"
  by (cases b) (auto split: if_splits obj.splits)

lemma blackToRed_decoded_not_malformed:
  assumes "get_prop (mem w) b ''msghex'' = Inr mh"
    and "fst (Buffer_from_hex L mh w) = Inr msg"
    and "get_prop (mem w) b ''sighex'' = Inr sh"
    and "fst (Buffer_from_hex L sh w) = Inr sig"
    and "get_prop (mem w) b ''spkhex'' = Inr spk"
  shows "fst (blackToRed L sk b w) \<noteq> Inl MalformedEnvelope"
  by (simp add: blackToRed_decoded [OF assms] after_verify_not_malformed
      split: sum.splits option.splits)

lemma blackToRed_malformed_iff:
  "fst (blackToRed L sk b w) = Inl MalformedEnvelope \<longleftrightarrow>
     (\<exists>m. get_prop (mem w) b ''msghex'' = Inr m \<and>
        (rejected L (mem w) m \<or>
         (\<exists>s. get_prop (mem w) b ''sighex'' = Inr s \<and> rejected L (mem w) s)))"
proof (cases "get_prop (mem w) b ''msghex''")
  case (Inl e)
  with get_prop_error [OF Inl] show ?thesis
    by (simp add: blackToRed_undecoded(1))
next
  case mh: (Inr m)
  from get_prop_ok [OF mh] obtain s where sh: "get_prop (mem w) b ''sighex'' = Inr s"
    by blast
  from get_prop_ok [OF mh] obtain spk where spk: "get_prop (mem w) b ''spkhex'' = Inr spk"
    by blast
  show ?thesis
  proof (cases "fst (Buffer_from_hex L m w)")
    case (Inl e)
    then have "e = MalformedEnvelope" "rejected L (mem w) m"
      by (simp_all add: Buffer_from_hex_rejected)
    with mh Inl show ?thesis
      by (simp add: blackToRed_undecoded(2))
  next
    case msg: (Inr msg)
    then have m: "\<not> rejected L (mem w) m"
      using Buffer_from_hex_rejected [of L m w MalformedEnvelope] by simp
    show ?thesis
    proof (cases "fst (Buffer_from_hex L s w)")
      case (Inl e)
      then have "e = MalformedEnvelope" "rejected L (mem w) s"
        by (simp_all add: Buffer_from_hex_rejected)
      with mh msg sh Inl show ?thesis
        by (simp add: blackToRed_undecoded(3))
    next
      case sig: (Inr sig)
      then have "\<not> rejected L (mem w) s"
        using Buffer_from_hex_rejected [of L s w MalformedEnvelope] by simp
      with m mh sh blackToRed_decoded_not_malformed [OF mh msg sh sig spk, of sk]
      show ?thesis
        by simp
    qed
  qed
qed

lemma blackToRed_malformed_world:
  assumes "fst (blackToRed L sk b w) = Inl MalformedEnvelope"
  shows "snd (blackToRed L sk b w) = w"
proof -
  from assms obtain m where mh: "get_prop (mem w) b ''msghex'' = Inr m"
    unfolding blackToRed_malformed_iff by blast
  from get_prop_ok [OF mh] obtain s where sh: "get_prop (mem w) b ''sighex'' = Inr s"
    by blast
  from get_prop_ok [OF mh] obtain spk where spk: "get_prop (mem w) b ''spkhex'' = Inr spk"
    by blast
  show ?thesis
  proof (cases "fst (Buffer_from_hex L m w)")
    case (Inl e)
    with mh show ?thesis
      by (simp add: blackToRed_undecoded(2))
  next
    case msg: (Inr msg)
    show ?thesis
    proof (cases "fst (Buffer_from_hex L s w)")
      case (Inl e)
      with mh msg sh show ?thesis
        by (simp add: blackToRed_undecoded(3))
    next
      case sig: (Inr sig)
      with assms blackToRed_decoded_not_malformed [OF mh msg sh sig spk, of sk]
      show ?thesis
        by simp
    qed
  qed
qed

text \<open>
  C5, amended. \<^verbatim>\<open>blackToRed\<close> fails at the hex decoding exactly when \<^verbatim>\<open>msghex\<close>,
  or \<^verbatim>\<open>sighex\<close> once \<^verbatim>\<open>msghex\<close> is decoded, is a value on which
  \<^verbatim>\<open>Buffer.from(v, 'hex')\<close> throws: \<^verbatim>\<open>undefined\<close>, \<^verbatim>\<open>null\<close>, a boolean, a
  number, or an object that the library does not convert to a buffer; and then no call
  to a cryptographic library has been made and nothing has changed. When both are
  strings (of the 8-bit characters that strings have here) it never fails there,
  whatever the strings contain: each is decoded to the bytes of its longest prefix of
  hex digit pairs, the decoded \<^verbatim>\<open>msghex\<close> is hashed and the sender's key is imported,
  and a failure can only come from the later steps.
\<close>

theorem hex_decoding_refuses_no_string:
  "(get_prop (mem w) b ''msghex'' = Inr (VStr mh) \<and>
    get_prop (mem w) b ''sighex'' = Inr (VStr sh) \<longrightarrow>
      fst (blackToRed L sk b w) \<noteq> Inl MalformedEnvelope \<and>
      (\<exists>spk rest. calls (snd (blackToRed L sk b w)) =
         calls w @ Hash (from_hex mh) # KeyFromPublic spk # rest))
   \<and> (get_prop (mem w) b ''msghex'' = Inr m \<and> refused m \<longrightarrow>
        blackToRed L sk b w = (Inl MalformedEnvelope, w))
   \<and> (get_prop (mem w) b ''msghex'' = Inr (VStr mh) \<and>
      get_prop (mem w) b ''sighex'' = Inr s \<and> refused s \<longrightarrow>
        blackToRed L sk b w = (Inl MalformedEnvelope, w))
   \<and> (fst (blackToRed L sk b w) = Inl MalformedEnvelope \<longleftrightarrow>
        (\<exists>m. get_prop (mem w) b ''msghex'' = Inr m \<and>
           (rejected L (mem w) m \<or>
            (\<exists>s. get_prop (mem w) b ''sighex'' = Inr s \<and> rejected L (mem w) s))))
   \<and> (fst (blackToRed L sk b w) = Inl MalformedEnvelope \<longrightarrow>
        snd (blackToRed L sk b w) = w)"
proof (intro conjI impI)
  assume a: "get_prop (mem w) b ''msghex'' = Inr (VStr mh) \<and>
    get_prop (mem w) b ''sighex'' = Inr (VStr sh)"
  then obtain spk where spk: "get_prop (mem w) b ''spkhex'' = Inr spk"
    using get_prop_ok by blast
  note run = blackToRed_strings [OF a [THEN conjunct1] a [THEN conjunct2] spk, of L sk]
  show "fst (blackToRed L sk b w) \<noteq> Inl MalformedEnvelope"
    by (simp add: run after_verify_not_malformed split: sum.splits option.splits)
  have "\<exists>rest. calls (snd (blackToRed L sk b w)) =
      calls w @ Hash (from_hex mh) # KeyFromPublic spk # rest"
    by (simp add: run after_verify_calls split: sum.splits option.splits)
  then show "\<exists>spk rest. calls (snd (blackToRed L sk b w)) =
      calls w @ Hash (from_hex mh) # KeyFromPublic spk # rest"
    by blast
next
  assume "get_prop (mem w) b ''msghex'' = Inr m \<and> refused m"
  then show "blackToRed L sk b w = (Inl MalformedEnvelope, w)"
    using blackToRed_undecoded(2) Buffer_from_hex_refused by blast
next
  assume "get_prop (mem w) b ''msghex'' = Inr (VStr mh) \<and>
      get_prop (mem w) b ''sighex'' = Inr s \<and> refused s"
  then show "blackToRed L sk b w = (Inl MalformedEnvelope, w)"
    using blackToRed_undecoded(3) [OF _ Buffer_from_hex_str] Buffer_from_hex_refused by blast
next
  show "fst (blackToRed L sk b w) = Inl MalformedEnvelope \<longleftrightarrow>
        (\<exists>m. get_prop (mem w) b ''msghex'' = Inr m \<and>
           (rejected L (mem w) m \<or>
            (\<exists>s. get_prop (mem w) b ''sighex'' = Inr s \<and> rejected L (mem w) s)))"
    by (rule blackToRed_malformed_iff)
next
  assume "fst (blackToRed L sk b w) = Inl MalformedEnvelope"
  then show "snd (blackToRed L sk b w) = w"
    by (rule blackToRed_malformed_world)
qed

theorem hex_decoding_refuses_no_string_witness:
  "get_prop (mem (received ''zz'' [] spkA)) (VRef 10) ''msghex'' = Inr (VStr ''zz'')
   \<and> get_prop (mem (received ''zz'' [] spkA)) (VRef 10) ''sighex'' = Inr (VStr [])
   \<and> fst (blackToRed stub skB (VRef 10) (received ''zz'' [] spkA)) \<noteq> Inl MalformedEnvelope
   \<and> get_prop (mem world1) (VRef 10) ''msghex'' = Inr VUndefined
   \<and> refused VUndefined
   \<and> blackToRed stub skB (VRef 10) world1 = (Inl MalformedEnvelope, world1)
   \<and> get_prop (mem world1) (VRef 0) ''msghex'' = Inr VUndefined
   \<and> fst (blackToRed stub skB (VRef 0) world1) = Inl MalformedEnvelope
   \<and> snd (blackToRed stub skB (VRef 0) world1) = world1"
proof -
  have u: "get_prop (mem world1) (VRef 10) ''msghex'' = Inr VUndefined"
    by (simp add: world1_def world0_def nth_append length_init_heap)
  have u0: "get_prop (mem world1) (VRef 0) ''msghex'' = Inr VUndefined"
    by (simp add: world1_def world0_def init_heap_def)
  have r: "refused VUndefined"
    by simp
  have "fst (blackToRed stub skB (VRef 10) (received ''zz'' [] spkA)) \<noteq> Inl MalformedEnvelope"
    using hex_decoding_refuses_no_string [of "received ''zz'' [] spkA" "VRef 10" "''zz''" "[]"
        stub skB VUndefined VUndefined]
      received_fields(1,2) [of "''zz''" "[]" spkA]
    by blast
  moreover have "blackToRed stub skB (VRef 10) world1 = (Inl MalformedEnvelope, world1)"
    using hex_decoding_refuses_no_string [of world1 "VRef 10" "[]" "[]" stub skB VUndefined
        VUndefined] u r
    by blast
  moreover have m0: "fst (blackToRed stub skB (VRef 0) world1) = Inl MalformedEnvelope"
  proof -
    have "rejected stub (mem world1) VUndefined"
      by simp
    with u0 hex_decoding_refuses_no_string [of world1 "VRef 0" "[]" "[]" stub skB VUndefined
        VUndefined]
    show ?thesis
      by blast
  qed
  moreover have "snd (blackToRed stub skB (VRef 0) world1) = world1"
    using m0 hex_decoding_refuses_no_string [of world1 "VRef 0" "[]" "[]" stub skB VUndefined
        VUndefined]
    by blast
  ultimately show ?thesis
    using received_fields(1,2) [of "''zz''" "[]" spkA] u u0 r by blast
qed


lemma sig_x_verifies: "verify stub 7 msg_x sig_x = Some True"
  by (simp add: stub_def sig_x_def)

text \<open>
  C6 as stated fails. The envelope that \<^verbatim>\<open>redToBlack\<close> produces for the example
  request starts its \<^verbatim>\<open>msghex\<close> with the character \<^verbatim>\<open>a\<close>. With that one byte
  changed to \<^verbatim>\<open>A\<close> (one bit flipped), \<^verbatim>\<open>blackToRed\<close> does not fail: the hex
  decoding reads both cases alike, the signature verifies, and the request is returned.
\<close>

theorem changed_hex_case_is_accepted:
  "fst (redToBlack stub skA pkB (VRef 10) world1) = Inr (VRef 11)
   \<and> mem (snd (redToBlack stub skA pkB (VRef 10) world1)) ! 11 =
       Obj [(''msghex'', VStr (toString_hex msg_x)), (''sighex'', VStr (toString_hex sig_x)),
            (''spkhex'', VStr spkA)]
   \<and> toString_hex msg_x ! 0 = CHR ''a''
   \<and> fst (blackToRed stub skB (VRef 10)
            (received ((toString_hex msg_x)[0 := CHR ''A'']) (toString_hex sig_x) spkA))
       = Inr (VRef 11)
   \<and> stringify []
         (mem (snd (blackToRed stub skB (VRef 10)
            (received ((toString_hex msg_x)[0 := CHR ''A'']) (toString_hex sig_x) spkA))))
         (VRef 11)
       = Inr (Some request_x)"
proof -
  have enc: "ecies_encrypt stub (\<lambda>i. entropy world1 (drawn world1 + i)) pkB
      (buffer_from_text stub request_x) = (Some msg_x, 1)"
    using stub_encrypt by (simp add: msg_x_def)
  have produced: "redToBlack stub skA pkB (VRef 10) world1 =
      (Inr (VRef 11),
       world1\<lparr>mem := mem world1 @
            [Obj [(''msghex'', VStr (toString_hex msg_x)),
                  (''sighex'', VStr (toString_hex sig_x)),
                  (''spkhex'', VStr spkA)]],
          drawn := drawn world1 + 1,
          calls := calls world1 @
            [Encrypt pkB (buffer_from_text stub request_x), Hash msg_x,
             KeyFromPrivate skA, Sign (sha256 stub msg_x)]\<rparr>)"
    unfolding redToBlack_run [OF world1_intact world1_request enc stub_keyFromPrivate stub_point]
    by (simp add: world1_def world0_def length_init_heap stub_def sig_x_def spkA_def)
  have ok: "verify stub 7 (from_hex ((toString_hex msg_x)[0 := CHR ''A'']))
      (from_hex (toString_hex sig_x)) = Some True"
    unfolding flipped_case(2) from_hex_toString_hex by (rule sig_x_verifies)
  have decoded: "blackToRed stub skB (VRef 10)
        (received ((toString_hex msg_x)[0 := CHR ''A'']) (toString_hex sig_x) spkA) =
      after_verify stub skB msg_x
        ((received ((toString_hex msg_x)[0 := CHR ''A'']) (toString_hex sig_x) spkA)\<lparr>calls :=
           [Hash msg_x, KeyFromPublic (VStr spkA), Verify msg_x sig_x (Some True)]\<rparr>)"
    unfolding stub_run [OF ok, of skB] flipped_case(2) from_hex_toString_hex by simp
  have "fst (redToBlack stub skA pkB (VRef 10) world1) = Inr (VRef 11)"
    and "mem (snd (redToBlack stub skA pkB (VRef 10) world1)) ! 11 =
       Obj [(''msghex'', VStr (toString_hex msg_x)), (''sighex'', VStr (toString_hex sig_x)),
            (''spkhex'', VStr spkA)]"
    unfolding produced
    by (simp_all add: world1_def world0_def nth_append length_init_heap)
  moreover
  have "fst (blackToRed stub skB (VRef 10)
            (received ((toString_hex msg_x)[0 := CHR ''A'']) (toString_hex sig_x) spkA))
       = Inr (VRef 11)"
    and "stringify []
         (mem (snd (blackToRed stub skB (VRef 10)
            (received ((toString_hex msg_x)[0 := CHR ''A'']) (toString_hex sig_x) spkA))))
         (VRef 11)
       = Inr (Some request_x)"
    unfolding decoded after_verify_stub
    by (simp_all add: received_def world0_def nth_append length_init_heap request_x_def)
  ultimately show ?thesis
    using flipped_case(1) by blast
qed


text \<open>
  C6, amended. \<^verbatim>\<open>blackToRed\<close> judges an envelope by the bytes that its hex strings
  decode to. A change of \<^verbatim>\<open>msghex\<close> or \<^verbatim>\<open>sighex\<close> that leaves the decoded bytes as
  they were (a hex digit in the other case) changes nothing: the call does what it does
  on the unchanged envelope. For a changed envelope as for any other, the call fails with
  \<^verbatim>\<open>SignatureVerificationFailure\<close> whenever the library's verification of the decoded
  signature against the hash of the decoded ciphertext returns false, and it returns a
  message only if that verification returned true, and then the message is the parsed
  decryption of the decoded \<^verbatim>\<open>msghex\<close>.
\<close>

theorem tampering_is_judged_on_decoded_bytes:
  assumes "get_prop (mem w) b ''msghex'' = Inr (VStr mh)"
    and "get_prop (mem w) b ''sighex'' = Inr (VStr sh)"
    and "get_prop (mem w) b ''spkhex'' = Inr spk"
    and "get_prop (mem w) b' ''msghex'' = Inr (VStr mh')"
    and "get_prop (mem w) b' ''sighex'' = Inr (VStr sh')"
    and "get_prop (mem w) b' ''spkhex'' = Inr spk"
  shows "(from_hex mh' = from_hex mh \<and> from_hex sh' = from_hex sh \<longrightarrow>
            blackToRed L sk b' w = blackToRed L sk b w)
       \<and> (fst (ec_keyFromPublic L spk w) = Inr pubkey \<and>
          verify L pubkey (sha256 L (from_hex mh')) (from_hex sh') = Some False \<longrightarrow>
            fst (blackToRed L sk b' w) = Inl SignatureVerificationFailure)
       \<and> (fst (blackToRed L sk b' w) = Inr v \<longrightarrow>
            (\<exists>pubkey red j.
               fst (ec_keyFromPublic L spk w) = Inr pubkey \<and>
               verify L pubkey (sha256 L (from_hex mh')) (from_hex sh') = Some True \<and>
               ecies_decrypt L sk (from_hex mh') = Some red \<and>
               text_from_buffer L red = Some j \<and>
               v = fst (parse j (mem w))))"
proof (intro conjI impI)
  note run = blackToRed_strings [OF assms(1-3), of L sk]
  note run' = blackToRed_strings [OF assms(4-6), of L sk]
  show "blackToRed L sk b' w = blackToRed L sk b w"
    if "from_hex mh' = from_hex mh \<and> from_hex sh' = from_hex sh"
  proof -
    from that have same: "from_hex mh' = from_hex mh" "from_hex sh' = from_hex sh"
      by simp_all
    show ?thesis
      unfolding run run' same by (rule refl)
  qed
  show "fst (blackToRed L sk b' w) = Inl SignatureVerificationFailure"
    if "fst (ec_keyFromPublic L spk w) = Inr pubkey \<and>
        verify L pubkey (sha256 L (from_hex mh')) (from_hex sh') = Some False"
    using that by (simp add: run')
  show "\<exists>pubkey red j.
          fst (ec_keyFromPublic L spk w) = Inr pubkey \<and>
          verify L pubkey (sha256 L (from_hex mh')) (from_hex sh') = Some True \<and>
          ecies_decrypt L sk (from_hex mh') = Some red \<and>
          text_from_buffer L red = Some j \<and>
          v = fst (parse j (mem w))"
    if ret: "fst (blackToRed L sk b' w) = Inr v"
  proof (cases "fst (ec_keyFromPublic L spk w)")
    case (Inl e)
    with ret show ?thesis
      by (simp add: run')
  next
    case pk: (Inr pubkey)
    show ?thesis
    proof (cases "verify L pubkey (sha256 L (from_hex mh')) (from_hex sh')")
      case None
      with ret pk show ?thesis
        by (simp add: run')
    next
      case (Some ok)
      with ret pk have ok: "ok"
        by (cases ok) (simp_all add: run')
      let ?w = "w\<lparr>calls := calls w @
          [Hash (from_hex mh'), KeyFromPublic spk,
           Verify (sha256 L (from_hex mh')) (from_hex sh') (Some True)]\<rparr>"
      from ret pk Some ok have "fst (after_verify L sk (from_hex mh') ?w) = Inr v"
        by (simp add: run')
      with after_verify_result [of L sk "from_hex mh'" ?w]
      obtain red j where "ecies_decrypt L sk (from_hex mh') = Some red"
        "text_from_buffer L red = Some j" "v = fst (parse j (mem w))"
        by auto
      with pk Some ok show ?thesis
        by simp
    qed
  qed
qed

theorem tampering_is_judged_on_decoded_bytes_witness:
  "blackToRed stub skB (VRef 11)
     ((received (toString_hex msg_x) (toString_hex sig_x) spkA)\<lparr>mem :=
        mem (received (toString_hex msg_x) (toString_hex sig_x) spkA) @
        [Obj [(''msghex'', VStr ((toString_hex msg_x)[0 := CHR ''A''])),
              (''sighex'', VStr (toString_hex sig_x)), (''spkhex'', VStr spkA)]]\<rparr>)
   = blackToRed stub skB (VRef 10)
     ((received (toString_hex msg_x) (toString_hex sig_x) spkA)\<lparr>mem :=
        mem (received (toString_hex msg_x) (toString_hex sig_x) spkA) @
        [Obj [(''msghex'', VStr ((toString_hex msg_x)[0 := CHR ''A''])),
              (''sighex'', VStr (toString_hex sig_x)), (''spkhex'', VStr spkA)]]\<rparr>)"
proof -
  let ?w = "(received (toString_hex msg_x) (toString_hex sig_x) spkA)\<lparr>mem :=
        mem (received (toString_hex msg_x) (toString_hex sig_x) spkA) @
        [Obj [(''msghex'', VStr ((toString_hex msg_x)[0 := CHR ''A''])),
              (''sighex'', VStr (toString_hex sig_x)), (''spkhex'', VStr spkA)]]\<rparr>"
  have original:
    "get_prop (mem ?w) (VRef 10) ''msghex'' = Inr (VStr (toString_hex msg_x))"
    "get_prop (mem ?w) (VRef 10) ''sighex'' = Inr (VStr (toString_hex sig_x))"
    "get_prop (mem ?w) (VRef 10) ''spkhex'' = Inr (VStr spkA)"
    by (simp_all add: received_def world0_def nth_append length_init_heap)
  have changed:
    "get_prop (mem ?w) (VRef 11) ''msghex'' = Inr (VStr ((toString_hex msg_x)[0 := CHR ''A'']))"
    "get_prop (mem ?w) (VRef 11) ''sighex'' = Inr (VStr (toString_hex sig_x))"
    "get_prop (mem ?w) (VRef 11) ''spkhex'' = Inr (VStr spkA)"
    by (simp_all add: received_def world0_def nth_append length_init_heap)
  from tampering_is_judged_on_decoded_bytes [OF original changed, of stub skB]
  show ?thesis
    using flipped_case(2) from_hex_toString_hex by simp
qed

subsection \<open>Round trip\<close>


lemma round_trip_run:
  assumes intact: "templates_intact (mem w)"
    and ser: "stringify [] (mem w) redobj = Inr (Some j)"
    and codec: "text_from_buffer L (buffer_from_text L j) = Some j"
    and keyA: "keyFromPrivate L txprivkeyhex = Some privkey"
    and pointA: "getPublic L privkey = Some P"
    and pubA: "keyFromPublic L (toString_hex (encode P True)) = Some pubkey"
    and sigA: "verify L pubkey (sha256 L msg) (toDER L (sign L privkey (sha256 L msg)))
                 = Some True"
    and enc: "ecies_encrypt L (\<lambda>i. entropy w (drawn w + i)) rxpubkeyhex (buffer_from_text L j)
                = (Some msg, n)"
    and dec: "ecies_decrypt L rxprivkeyhex msg = Some (buffer_from_text L j)"
    and env: "env = Obj [(''msghex'', VStr (toString_hex msg)),
                 (''sighex'', VStr (toString_hex (toDER L (sign L privkey (sha256 L msg))))),
                 (''spkhex'', VStr (toString_hex (encode P True)))]"
  shows "\<exists>w' w''.
      redToBlack L txprivkeyhex rxpubkeyhex redobj w = (Inr (VRef (length (mem w))), w') \<and>
      blackToRed L rxprivkeyhex (VRef (length (mem w))) w' =
        (Inr (fst (parse j (mem w @ [env]))), w'') \<and>
      mem w'' = snd (parse j (mem w @ [env]))"
proof -
  let ?sig = "toDER L (sign L privkey (sha256 L msg))"
  let ?spk = "toString_hex (encode P True)"
  let ?black = "VRef (length (mem w))"
  let ?w' = "w\<lparr>mem := mem w @ [env], drawn := drawn w + n,
      calls := calls w @
        [Encrypt rxpubkeyhex (buffer_from_text L j), Hash msg,
         KeyFromPrivate txprivkeyhex, Sign (sha256 L msg)]\<rparr>"
  have encode: "redToBlack L txprivkeyhex rxpubkeyhex redobj w = (Inr ?black, ?w')"
    unfolding env by (rule redToBlack_run [OF intact ser enc keyA pointA])
  have fields:
    "get_prop (mem ?w') ?black ''msghex'' = Inr (VStr (toString_hex msg))"
    "get_prop (mem ?w') ?black ''sighex'' = Inr (VStr (toString_hex ?sig))"
    "get_prop (mem ?w') ?black ''spkhex'' = Inr (VStr ?spk)"
    by (simp_all add: env)
  let ?w2 = "?w'\<lparr>calls := calls ?w' @
      [Hash msg, KeyFromPublic (VStr ?spk), Verify (sha256 L msg) ?sig (Some True)]\<rparr>"
  have key: "fst (ec_keyFromPublic L (VStr ?spk) ?w') = Inr pubkey"
    by (simp add: ec_keyFromPublic_str pubA)
  have "blackToRed L rxprivkeyhex ?black ?w' = after_verify L rxprivkeyhex msg ?w2"
    unfolding blackToRed_strings [OF fields, of L rxprivkeyhex] from_hex_toString_hex
    by (simp add: key sigA)
  also have "\<dots> = (Inr (fst (parse j (mem w @ [env]))),
      ?w2\<lparr>calls := calls ?w2 @ [Decrypt rxprivkeyhex msg],
        mem := snd (parse j (mem w @ [env]))\<rparr>)"
    by (simp add: after_verify_def dec codec)
  finally have decode: "blackToRed L rxprivkeyhex ?black ?w' =
      (Inr (fst (parse j (mem w @ [env]))),
       ?w2\<lparr>calls := calls ?w2 @ [Decrypt rxprivkeyhex msg],
         mem := snd (parse j (mem w @ [env]))\<rparr>)" .
  show ?thesis
  proof (intro exI conjI)
    show "redToBlack L txprivkeyhex rxpubkeyhex redobj w = (Inr ?black, ?w')"
      by (rule encode)
    show "blackToRed L rxprivkeyhex ?black ?w' =
      (Inr (fst (parse j (mem w @ [env]))),
       ?w2\<lparr>calls := calls ?w2 @ [Decrypt rxprivkeyhex msg],
         mem := snd (parse j (mem w @ [env]))\<rparr>)"
      by (rule decode)
    show "mem (?w2\<lparr>calls := calls ?w2 @ [Decrypt rxprivkeyhex msg],
         mem := snd (parse j (mem w @ [env]))\<rparr>) = snd (parse j (mem w @ [env]))"
      by simp
  qed
qed

lemma world1_rep: "rep (mem world1) (VRef 10) request_x"
  by (simp add: world1_def world0_def nth_append length_init_heap request_x_def)

lemma stub_pair:
  "\<forall>rnd x. \<exists>c n. ecies_encrypt stub rnd pkB x = (Some c, n) \<and> ecies_decrypt stub skB c = Some x"
proof (intro allI)
  fix rnd x
  have "ecies_encrypt stub rnd pkB x = (Some (rnd 0 # be32 9 @ x), 1)"
    by (simp add: stub_def stub_keys)
  with stub_decrypt show "\<exists>c n. ecies_encrypt stub rnd pkB x = (Some c, n) \<and>
      ecies_decrypt stub skB c = Some x"
    by blast
qed

lemma stub_pubA: "keyFromPublic stub (toString_hex (encode (7, 7) True)) = Some 7"
  using stub_import by (simp add: spkA_def)

lemma stub_sigA: "\<forall>h. verify stub 7 h (toDER stub (sign stub 7 h)) = Some True"
  by (simp add: stub_def)

lemma world2_intact: "templates_intact (mem world2)"
  by (simp add: world2_def world0_def intact_append intact_init)

lemma world2_request: "stringify [] (mem world2) (VRef 10) = Inr (Some request_n)"
  by (simp add: world2_def world0_def nth_append length_init_heap request_n_def)

lemma request_texts_differ: "request_n \<noteq> request_x" "request_n_text \<noteq> request_x_text"
  by (simp_all add: request_n_def request_x_def request_n_text_def request_x_text_def)

lemma stub_codec:
  "text_from_buffer stub (buffer_from_text stub request_x) = Some request_x"
  "text_from_buffer stub (buffer_from_text stub request_n) = Some request_n"
  by (simp_all add: stub_def request_texts_differ)

lemma parse_request_n:
  "parse request_n h =
     (VRef (Suc (length h)),
      h @ [Arr [VNull, VNum 1] [],
           Obj [(''jsonrpc'', VStr ''2.0''), (''method'', VStr ''x''),
                (''params'', VRef (length h)), (''id'', VNum 5)]])"
  by (simp add: request_n_def)

text \<open>
  C1 as stated fails. The request
  \<^verbatim>\<open>{jsonrpc: "2.0", method: "x", params: [undefined, 1], id: 5}\<close> is serialized by
  \<^verbatim>\<open>JSON.stringify\<close>, to \<^verbatim>\<open>{"jsonrpc":"2.0","method":"x","params":[null,1],"id":5}\<close>.
  With two valid key pairs \<^verbatim>\<open>redToBlack\<close> returns an envelope for it and
  \<^verbatim>\<open>blackToRed\<close> returns a message from that envelope, but the first parameter of
  that message is \<^verbatim>\<open>null\<close>, where the request has \<^verbatim>\<open>undefined\<close>: the two are not
  structurally equal.
\<close>

theorem undefined_element_comes_back_null:
  "stringify [] (mem world2) (VRef 10) = Inr (Some request_n)
   \<and> field (mem world2) (VRef 10) ''params'' = VRef 11
   \<and> mem world2 ! 11 = Arr [VUndefined, VNum 1] []
   \<and> fst (redToBlack stub skA pkB (VRef 10) world2) = Inr (VRef 12)
   \<and> fst (blackToRed stub skB (VRef 12) (snd (redToBlack stub skA pkB (VRef 10) world2)))
       = Inr (VRef 14)
   \<and> field (mem (snd (blackToRed stub skB (VRef 12)
        (snd (redToBlack stub skA pkB (VRef 10) world2))))) (VRef 14) ''params'' = VRef 13
   \<and> mem (snd (blackToRed stub skB (VRef 12)
        (snd (redToBlack stub skA pkB (VRef 10) world2)))) ! 13 = Arr [VNull, VNum 1] []
   \<and> mem (snd (blackToRed stub skB (VRef 12)
        (snd (redToBlack stub skA pkB (VRef 10) world2)))) ! 11 = Arr [VUndefined, VNum 1] []
   \<and> rep (mem (snd (blackToRed stub skB (VRef 12)
        (snd (redToBlack stub skA pkB (VRef 10) world2))))) (VRef 14) request_n
   \<and> \<not> rep (mem (snd (blackToRed stub skB (VRef 12)
        (snd (redToBlack stub skA pkB (VRef 10) world2))))) (VRef 10) request_n"
proof -
  let ?msg = "171 # be32 9 @ request_n_text"
  let ?env = "Obj [(''msghex'', VStr (toString_hex ?msg)),
     (''sighex'', VStr (toString_hex (toDER stub (sign stub 7 (sha256 stub ?msg))))),
     (''spkhex'', VStr (toString_hex (encode (7, 7) True)))]"
  have len: "length (mem world2) = 12"
    by (simp add: world2_def world0_def length_init_heap)
  have enc: "ecies_encrypt stub (\<lambda>i. entropy world2 (drawn world2 + i)) pkB
      (buffer_from_text stub request_n) = (Some ?msg, 1)"
    by (simp add: stub_def stub_keys world2_def world0_def request_texts_differ)
  have dec: "ecies_decrypt stub skB ?msg = Some (buffer_from_text stub request_n)"
    using stub_decrypt [of 171 request_n_text] by (simp add: stub_def request_texts_differ)
  have sig: "verify stub 7 (sha256 stub ?msg) (toDER stub (sign stub 7 (sha256 stub ?msg)))
      = Some True"
    using stub_sigA by blast
  from round_trip_run [OF world2_intact world2_request stub_codec(2) stub_keyFromPrivate
      stub_point stub_pubA sig enc dec refl]
  obtain w' w'' where
    black: "redToBlack stub skA pkB (VRef 10) world2 = (Inr (VRef 12), w')" and
    red: "blackToRed stub skB (VRef 12) w' = (Inr (fst (parse request_n (mem world2 @ [?env]))), w'')"
      and
    mem: "mem w'' = snd (parse request_n (mem world2 @ [?env]))"
    unfolding len by blast
  have result: "fst (parse request_n (mem world2 @ [?env])) = VRef 14"
    unfolding parse_request_n by (simp add: len)
  have heap: "mem w'' = mem world2 @
      [?env, Arr [VNull, VNum 1] [],
       Obj [(''jsonrpc'', VStr ''2.0''), (''method'', VStr ''x''),
            (''params'', VRef 13), (''id'', VNum 5)]]"
    unfolding mem parse_request_n by (simp add: len)
  have at: "mem w'' ! 14 = Obj [(''jsonrpc'', VStr ''2.0''), (''method'', VStr ''x''),
            (''params'', VRef 13), (''id'', VNum 5)]"
    "mem w'' ! 13 = Arr [VNull, VNum 1] []"
    "mem w'' ! 11 = Arr [VUndefined, VNum 1] []"
    "mem w'' ! 10 = Obj [(''jsonrpc'', VStr ''2.0''), (''method'', VStr ''x''),
            (''params'', VRef 11), (''id'', VNum 5)]"
    "length (mem w'') = 15"
    unfolding heap by (simp_all add: nth_append len world2_def world0_def length_init_heap)
  have par: "field (mem w'') (VRef 14) ''params'' = VRef 13"
    by (simp add: field_def at)
  have new: "rep (mem w'') (VRef 14) request_n"
    by (simp add: request_n_def at)
  have old: "\<not> rep (mem w'') (VRef 10) request_n"
    by (simp add: request_n_def at)
  have orig: "field (mem world2) (VRef 10) ''params'' = VRef 11"
    "mem world2 ! 11 = Arr [VUndefined, VNum 1] []"
    by (simp_all add: field_def world2_def world0_def nth_append length_init_heap)
  from world2_request orig par new old at(2,3) show ?thesis
    unfolding black fst_conv snd_conv red result
    by (intro conjI) (rule refl | assumption)+
qed

text \<open>
  C1, amended. Let the module's templates be as loaded and let \<^verbatim>\<open>JSON.stringify\<close>
  serialize the message to a text \<open>j\<close> (in which no object has a key twice, as in every
  text it writes). Let the libraries be correct on the two key pairs: the text \<open>j\<close> is
  read back from its bytes; the sender's private key is accepted and has a public point,
  its compressed public key is accepted, and every signature made with the private key
  verifies with the public key; whatever is encrypted to the recipient's public key
  decrypts with the recipient's private key. Then \<^verbatim>\<open>redToBlack\<close> returns an
  envelope and \<^verbatim>\<open>blackToRed\<close> applied to it returns a value, and that value is the
  JSON data \<open>j\<close>, built of new objects: it is what \<^verbatim>\<open>JSON.parse(JSON.stringify(m))\<close>
  is for the message \<open>m\<close>. The objects that were there are unchanged. When the message
  is itself JSON data (no \<^verbatim>\<open>undefined\<close> in it, no array with named properties), it
  is the same JSON data as the value returned: the two are structurally equal.
\<close>

theorem blackToRed_redToBlack_round_trip:
  assumes intact: "templates_intact (mem w)"
    and ser: "stringify [] (mem w) redobj = Inr (Some j)"
    and keys: "wf_json j"
    and codec: "text_from_buffer L (buffer_from_text L j) = Some j"
    and keyA: "keyFromPrivate L txprivkeyhex = Some privkey"
    and pointA: "getPublic L privkey = Some P"
    and pubA: "keyFromPublic L (toString_hex (encode P True)) = Some pubkey"
    and sigA: "\<forall>h. verify L pubkey h (toDER L (sign L privkey h)) = Some True"
    and pairB: "\<forall>rnd x. \<exists>c n. ecies_encrypt L rnd rxpubkeyhex x = (Some c, n) \<and>
                  ecies_decrypt L rxprivkeyhex c = Some x"
  shows "\<exists>black w' red w''.
           redToBlack L txprivkeyhex rxpubkeyhex redobj w = (Inr black, w') \<and>
           blackToRed L rxprivkeyhex black w' = (Inr red, w'') \<and>
           rep (mem w'') red j \<and>
           take (length (mem w)) (mem w'') = mem w \<and>
           (\<forall>m. rep (mem w) redobj m \<longrightarrow> rep (mem w'') red m \<and> rep (mem w'') redobj m)"
proof -
  from pairB obtain msg n where
    enc: "ecies_encrypt L (\<lambda>i. entropy w (drawn w + i)) rxpubkeyhex (buffer_from_text L j)
            = (Some msg, n)" and
    dec: "ecies_decrypt L rxprivkeyhex msg = Some (buffer_from_text L j)"
    by blast
  let ?env = "Obj [(''msghex'', VStr (toString_hex msg)),
     (''sighex'', VStr (toString_hex (toDER L (sign L privkey (sha256 L msg))))),
     (''spkhex'', VStr (toString_hex (encode P True)))]"
  have sig: "verify L pubkey (sha256 L msg) (toDER L (sign L privkey (sha256 L msg)))
      = Some True"
    using sigA by blast
  from round_trip_run [OF intact ser codec keyA pointA pubA sig enc dec refl]
  obtain w' w'' where
    black: "redToBlack L txprivkeyhex rxpubkeyhex redobj w = (Inr (VRef (length (mem w))), w')"
      and
    red: "blackToRed L rxprivkeyhex (VRef (length (mem w))) w' =
        (Inr (fst (parse j (mem w @ [?env]))), w'')" and
    mem: "mem w'' = snd (parse j (mem w @ [?env]))"
    by blast
  obtain v h' where p: "parse j (mem w @ [?env]) = (v, h')"
    by (cases "parse j (mem w @ [?env])")
  have v: "rep h' v j"
    using keys p by (rule parse_rep(1))
  from parse_extends(1) [OF p] obtain t where "h' = (mem w @ [?env]) @ t" ..
  then have h': "h' = mem w @ (?env # t)"
    by simp
  have same: "rep h' v m \<and> rep h' redobj m" if m: "rep (mem w) redobj m" for m
  proof -
    from m have "stringify [] (mem w) redobj = Inr (Some m)"
      by (rule stringify_of_rep)
    with ser have "m = j"
      by simp
    moreover have "rep h' redobj m"
      unfolding h' using m by (rule rep_append(1))
    ultimately show ?thesis
      using v by simp
  qed
  have "rep (mem w'') (fst (parse j (mem w @ [?env]))) j"
    and "take (length (mem w)) (mem w'') = mem w"
    and "\<forall>m. rep (mem w) redobj m \<longrightarrow>
           rep (mem w'') (fst (parse j (mem w @ [?env]))) m \<and> rep (mem w'') redobj m"
    unfolding mem p using v same by (simp_all add: h')
  with black red show ?thesis
    by blast
qed

theorem blackToRed_redToBlack_round_trip_witness:
  "templates_intact (mem world1)
   \<and> stringify [] (mem world1) (VRef 10) = Inr (Some request_x)
   \<and> rep (mem world1) (VRef 10) request_x
   \<and> keyFromPrivate stub skA = Some 7
   \<and> getPublic stub 7 = Some (7, 7)
   \<and> keyFromPublic stub (toString_hex (encode (7, 7) True)) = Some 7
   \<and> (\<exists>black w' red w''.
         redToBlack stub skA pkB (VRef 10) world1 = (Inr black, w') \<and>
         blackToRed stub skB black w' = (Inr red, w'') \<and>
         rep (mem w'') red request_x \<and> rep (mem w'') (VRef 10) request_x)
   \<and> stringify [] (mem world2) (VRef 10) = Inr (Some request_n)
   \<and> (\<exists>black w' red w''.
         redToBlack stub skA pkB (VRef 10) world2 = (Inr black, w') \<and>
         blackToRed stub skB black w' = (Inr red, w'') \<and>
         rep (mem w'') red request_n)"
proof -
  have wf: "wf_json request_x" "wf_json request_n"
    by (simp_all add: request_x_def request_n_def)
  from blackToRed_redToBlack_round_trip [OF world1_intact world1_request wf(1) stub_codec(1)
      stub_keyFromPrivate stub_point stub_pubA stub_sigA stub_pair]
    world1_rep
  have "\<exists>black w' red w''.
         redToBlack stub skA pkB (VRef 10) world1 = (Inr black, w') \<and>
         blackToRed stub skB black w' = (Inr red, w'') \<and>
         rep (mem w'') red request_x \<and> rep (mem w'') (VRef 10) request_x"
    by blast
  moreover
  from blackToRed_redToBlack_round_trip [OF world2_intact world2_request wf(2) stub_codec(2)
      stub_keyFromPrivate stub_point stub_pubA stub_sigA stub_pair]
  have "\<exists>black w' red w''.
         redToBlack stub skA pkB (VRef 10) world2 = (Inr black, w') \<and>
         blackToRed stub skB black w' = (Inr red, w'') \<and>
         rep (mem w'') red request_n"
    by blast
  ultimately show ?thesis
    using world1_intact world1_request world1_rep stub_keyFromPrivate stub_point stub_pubA
      world2_request
    by blast
qed

subsection \<open>Key pairs\<close>



lemma makeKey_run:
  assumes "keyFromPrivate L (toString_hex (map (\<lambda>i. entropy w (drawn w + i)) [0..<32]))
             = Some privkey"
    and "getPublic L privkey = Some P"
  shows "makeKey L w =
    (Inr (VRef (length (mem w))),
     w\<lparr>drawn := drawn w + 32,
       calls := calls w @
         [RandomBytes 32,
          KeyFromPrivate (toString_hex (map (\<lambda>i. entropy w (drawn w + i)) [0..<32]))],
       mem := mem w @
         [Obj [(''prv'', VStr (toString_hex (map (\<lambda>i. entropy w (drawn w + i)) [0..<32]))),
               (''pub'', VStr (toString_hex (encode P False)))]]\<rparr>)"
  using assms
  by (simp add: makeKey_def seq_def randomBytes_def return_def logged_def or_throw_def
      allocate_def encode_hex_def del: upt.simps)

lemma makeKey_no_point:
  assumes "keyFromPrivate L (toString_hex (map (\<lambda>i. entropy w (drawn w + i)) [0..<32]))
             = Some privkey"
    and "getPublic L privkey = None"
  shows "makeKey L w =
    (Inl TypeError,
     w\<lparr>drawn := drawn w + 32,
       calls := calls w @
         [RandomBytes 32,
          KeyFromPrivate (toString_hex (map (\<lambda>i. entropy w (drawn w + i)) [0..<32]))]\<rparr>)"
  using assms
  by (simp add: makeKey_def seq_def randomBytes_def return_def logged_def or_throw_def
      throw_def encode_hex_def del: upt.simps)

lemma makeKey_no_key:
  assumes "keyFromPrivate L (toString_hex (map (\<lambda>i. entropy w (drawn w + i)) [0..<32])) = None"
  shows "fst (makeKey L w) = Inl KeyFormatError"
  using assms
  by (simp add: makeKey_def seq_def randomBytes_def return_def logged_def or_throw_def
      throw_def del: upt.simps)

lemma compressed_differs:
  "toString_hex (encode P False) \<noteq> toString_hex (encode P True)"
proof
  assume "toString_hex (encode P False) = toString_hex (encode P True)"
  then have "length (toString_hex (encode P False)) = length (toString_hex (encode P True))"
    by simp
  then show False
    by (simp add: length_toString_hex length_encode)
qed

lemma uncompressed_prefix: "take 2 (toString_hex (encode P False)) = ''04''"
  by (simp add: encode_def hexdigit_def)

lemma foldl_be_nat_eq_0:
  "foldl (\<lambda>n b. 256 * n + unat (b :: byte)) n bs = 0 \<longleftrightarrow> n = 0 \<and> (\<forall>b\<in>set bs. b = 0)"
  by (induction bs arbitrary: n) (auto simp: unat_eq_0)

lemma be_nat_eq_0: "be_nat bs = 0 \<longleftrightarrow> (\<forall>b\<in>set bs. b = 0)"
  by (simp add: be_nat_def foldl_be_nat_eq_0)

lemma prv0_bytes: "from_hex prv0 = map (\<lambda>i. word_of_nat (171 + i)) [0..<32]"
  by (simp add: prv0_def world0_def from_hex_toString_hex del: upt.simps)

lemma stub_point0: "getPublic stub (be_nat (from_hex prv0)) = Some point0"
proof -
  have "(171 :: byte) \<in> set (from_hex prv0)"
    unfolding prv0_bytes by (simp add: upt_rec)
  moreover have "(171 :: byte) \<noteq> 0"
    by simp
  ultimately have "be_nat (from_hex prv0) \<noteq> 0"
    unfolding be_nat_eq_0 by blast
  then show ?thesis
    by (simp add: stub_def point0_def)
qed

lemma stub_makeKey:
  "makeKey stub world0 =
    (Inr (VRef 10),
     world0\<lparr>drawn := 32,
       calls := [RandomBytes 32, KeyFromPrivate prv0],
       mem := init_heap @
         [Obj [(''prv'', VStr prv0),
               (''pub'', VStr (toString_hex (encode point0 False)))]]\<rparr>)"
proof -
  have "keyFromPrivate stub (toString_hex (map (\<lambda>i. entropy world0 (drawn world0 + i)) [0..<32]))
      = Some (be_nat (from_hex prv0))"
    by (simp add: stub_def prv0_def del: upt.simps)
  from makeKey_run [OF this stub_point0] show ?thesis
    by (simp add: prv0_def world0_def length_init_heap del: upt.simps)
qed

lemma worldZ_key:
  "toString_hex (map (\<lambda>i. entropy worldZ (drawn worldZ + i)) [0..<32]) = skZ"
  by (simp add: worldZ_def world0_def skZ_def upt_rec hexdigit_def)

lemma stub_zero_key: "keyFromPrivate stub skZ = Some 0" "getPublic stub 0 = None"
  by (simp_all add: stub_def skZ_def unhex_def be_nat_def)

text \<open>
  C4 as stated fails: the \<^verbatim>\<open>pub\<close> of the pair that \<^verbatim>\<open>makeKey\<close> returns is the hex
  string of the uncompressed encoding of the public point, 130 characters that start with
  \<^verbatim>\<open>04\<close>, and not that of the compressed encoding.
\<close>

theorem makeKey_public_key_is_not_compressed:
  "fst (makeKey stub world0) = Inr (VRef 10)
   \<and> field (mem (snd (makeKey stub world0))) (VRef 10) ''prv'' = VStr prv0
   \<and> keyFromPrivate stub prv0 = Some (be_nat (from_hex prv0))
   \<and> getPublic stub (be_nat (from_hex prv0)) = Some point0
   \<and> field (mem (snd (makeKey stub world0))) (VRef 10) ''pub'' \<noteq>
       VStr (toString_hex (encode point0 True))
   \<and> field (mem (snd (makeKey stub world0))) (VRef 10) ''pub'' =
       VStr (toString_hex (encode point0 False))
   \<and> length (toString_hex (encode point0 False)) = 130
   \<and> take 2 (toString_hex (encode point0 False)) = ''04''"
proof -
  have "keyFromPrivate stub prv0 = Some (be_nat (from_hex prv0))"
    by (simp add: stub_def)
  moreover
  have "field (mem (snd (makeKey stub world0))) (VRef 10) ''pub'' =
       VStr (toString_hex (encode point0 False))"
    and "field (mem (snd (makeKey stub world0))) (VRef 10) ''prv'' = VStr prv0"
    and "fst (makeKey stub world0) = Inr (VRef 10)"
    unfolding stub_makeKey by (simp_all add: field_def nth_append length_init_heap)
  ultimately show ?thesis
    using compressed_differs [of point0] uncompressed_prefix [of point0] stub_point0
    by (simp add: length_toString_hex length_encode)
qed

text \<open>
  C4, amended. A call of \<^verbatim>\<open>makeKey\<close> draws 32 bytes from the entropy source and
  imports their hex string as the private key. When that key has a public point, the call
  returns a new object whose \<^verbatim>\<open>prv\<close> is that hex string and whose \<^verbatim>\<open>pub\<close> is the
  hex string of the uncompressed encoding of the point: the byte 4, the 32 bytes of x and
  the 32 bytes of y; it is never the compressed encoding. When the key has no public
  point (the bytes drawn are 0 modulo the group order), the call returns no pair: it
  fails with a \<^verbatim>\<open>TypeError\<close>. When the import itself throws, so does the call.
\<close>

theorem makeKey_public_key_is_uncompressed:
  "(keyFromPrivate L (toString_hex (map (\<lambda>i. entropy w (drawn w + i)) [0..<32]))
      = Some privkey \<and>
    getPublic L privkey = Some P \<longrightarrow>
     (\<exists>r w'. makeKey L w = (Inr r, w') \<and>
           drawn w' = drawn w + 32 \<and>
           calls w' = calls w @
             [RandomBytes 32,
              KeyFromPrivate (toString_hex (map (\<lambda>i. entropy w (drawn w + i)) [0..<32]))] \<and>
           field (mem w') r ''prv'' =
             VStr (toString_hex (map (\<lambda>i. entropy w (drawn w + i)) [0..<32])) \<and>
           field (mem w') r ''pub'' =
             VStr (toString_hex (4 # be32 (fst P) @ be32 (snd P))) \<and>
           field (mem w') r ''pub'' \<noteq> VStr (toString_hex (encode P True))))
   \<and> (keyFromPrivate L (toString_hex (map (\<lambda>i. entropy w (drawn w + i)) [0..<32]))
        = Some privkey \<and>
      getPublic L privkey = None \<longrightarrow>
        fst (makeKey L w) = Inl TypeError)
   \<and> (keyFromPrivate L (toString_hex (map (\<lambda>i. entropy w (drawn w + i)) [0..<32])) = None
        \<longrightarrow> fst (makeKey L w) = Inl KeyFormatError)"
proof (intro conjI impI)
  assume a: "keyFromPrivate L (toString_hex (map (\<lambda>i. entropy w (drawn w + i)) [0..<32]))
      = Some privkey \<and> getPublic L privkey = Some P"
  have "4 # be32 (fst P) @ be32 (snd P) = encode P False"
    by (simp add: encode_def)
  then show "\<exists>r w'. makeKey L w = (Inr r, w') \<and>
           drawn w' = drawn w + 32 \<and>
           calls w' = calls w @
             [RandomBytes 32,
              KeyFromPrivate (toString_hex (map (\<lambda>i. entropy w (drawn w + i)) [0..<32]))] \<and>
           field (mem w') r ''prv'' =
             VStr (toString_hex (map (\<lambda>i. entropy w (drawn w + i)) [0..<32])) \<and>
           field (mem w') r ''pub'' =
             VStr (toString_hex (4 # be32 (fst P) @ be32 (snd P))) \<and>
           field (mem w') r ''pub'' \<noteq> VStr (toString_hex (encode P True))"
    unfolding makeKey_run [OF a [THEN conjunct1] a [THEN conjunct2]]
    using compressed_differs [of P]
    by (simp add: field_def del: upt.simps toString_hex.simps)
next
  assume a: "keyFromPrivate L (toString_hex (map (\<lambda>i. entropy w (drawn w + i)) [0..<32]))
      = Some privkey \<and> getPublic L privkey = None"
  show "fst (makeKey L w) = Inl TypeError"
    unfolding makeKey_no_point [OF a [THEN conjunct1] a [THEN conjunct2]] by simp
next
  assume "keyFromPrivate L (toString_hex (map (\<lambda>i. entropy w (drawn w + i)) [0..<32])) = None"
  then show "fst (makeKey L w) = Inl KeyFormatError"
    by (rule makeKey_no_key)
qed

theorem makeKey_public_key_is_uncompressed_witness:
  "keyFromPrivate stub (toString_hex (map (\<lambda>i. entropy world0 (drawn world0 + i)) [0..<32]))
     = Some (be_nat (from_hex prv0))
   \<and> getPublic stub (be_nat (from_hex prv0)) = Some point0
   \<and> (\<exists>r w'. makeKey stub world0 = (Inr r, w') \<and> drawn w' = drawn world0 + 32 \<and>
          field (mem w') r ''pub'' =
            VStr (toString_hex (4 # be32 (fst point0) @ be32 (snd point0))))
   \<and> keyFromPrivate stub (toString_hex (map (\<lambda>i. entropy worldZ (drawn worldZ + i)) [0..<32]))
     = Some 0
   \<and> getPublic stub 0 = None
   \<and> fst (makeKey stub worldZ) = Inl TypeError"
proof -
  have key: "keyFromPrivate stub
      (toString_hex (map (\<lambda>i. entropy world0 (drawn world0 + i)) [0..<32]))
      = Some (be_nat (from_hex prv0))"
    by (simp add: stub_def prv0_def del: upt.simps)
  have zero: "keyFromPrivate stub
      (toString_hex (map (\<lambda>i. entropy worldZ (drawn worldZ + i)) [0..<32])) = Some 0"
    unfolding worldZ_key by (rule stub_zero_key(1))
  from makeKey_public_key_is_uncompressed [of stub world0 "be_nat (from_hex prv0)" point0]
    key stub_point0
  have "\<exists>r w'. makeKey stub world0 = (Inr r, w') \<and> drawn w' = drawn world0 + 32 \<and>
          field (mem w') r ''pub'' =
            VStr (toString_hex (4 # be32 (fst point0) @ be32 (snd point0)))"
    by blast
  moreover
  from makeKey_public_key_is_uncompressed [of stub worldZ 0] zero stub_zero_key(2)
  have "fst (makeKey stub worldZ) = Inl TypeError"
    by blast
  ultimately show ?thesis
    using key zero stub_point0 stub_zero_key(2) by blast
qed

end
